theory Spec2Isabelle
  imports Main "HOL-Library.List_Lexorder" "HOL-Library.Monad_Syntax"
begin

section \<open>Python text\<close>

text \<open>
  A Python \<open>str\<close> is a sequence of Unicode code points, and \<open>str\<close> comparison is
  lexicographic on code points (a proper prefix is smaller). The greeting of the cell
  holds U+2705, which is no 8-bit character, so a string is a list of code points; the
  order of \<open>HOL-Library.List_Lexorder\<close> on such lists is Python's.
\<close>

type_synonym str = "nat list"

definition lit :: "string \<Rightarrow> str" where
  "lit cs = map of_char cs"

definition newline :: nat where
  "newline = 10"

section \<open>The sample of environment variable names\<close>

text \<open>
  \<open>os.environ\<close> is a mapping from names to values that keeps insertion order; it is an
  association list here, and \<open>os.environ.keys()\<close> lists the names in that order.
  \<^verbatim>\<open>sorted(list(os.environ.keys()))[:10]\<close>: \<open>sorted\<close> returns the ascending
  list (for a linear order on strings there is only one), and the slice \<open>[:10]\<close> keeps
  the first ten elements, or all of them when there are fewer.
\<close>

type_synonym env_table = "(str \<times> str) list"

definition keys :: "env_table \<Rightarrow> str list" where
  "keys env = map fst env"

definition sorted_py :: "str list \<Rightarrow> str list" where
  "sorted_py xs = sort xs"

definition env_key_sample :: "env_table \<Rightarrow> str list" where
  "env_key_sample env = take 10 (sorted_py (keys env))"

section \<open>Decimal and hexadecimal formatting\<close>

text \<open>
  \<open>dec n\<close> is \<open>str(n)\<close> for a natural number, \<open>zpad k n\<close> the format \<open>%0kd\<close> (zeros
  on the left up to width \<open>k\<close>, never truncating), and \<open>hexpad k n\<close> the format
  \<open>%0kx\<close> (lower-case digits).
\<close>

function dec :: "nat \<Rightarrow> str" where
  "dec n = (if n < 10 then [48 + n] else dec (n div 10) @ [48 + n mod 10])"
  by pat_completeness auto
termination
  by (relation "measure (\<lambda>n. n)") auto

definition zpad :: "nat \<Rightarrow> nat \<Rightarrow> str" where
  "zpad k n = replicate (k - length (dec n)) 48 @ dec n"

definition hex_digit :: "nat \<Rightarrow> nat" where
  "hex_digit d = (if d < 10 then 48 + d else 87 + d)"

function hex :: "nat \<Rightarrow> str" where
  "hex n = (if n < 16 then [hex_digit n] else hex (n div 16) @ [hex_digit (n mod 16)])"
  by pat_completeness auto
termination
  by (relation "measure (\<lambda>n. n)") auto

definition hexpad :: "nat \<Rightarrow> nat \<Rightarrow> str" where
  "hexpad k n = replicate (k - length (hex n)) 48 @ hex n"

section \<open>The clock reading and its ISO format\<close>

text \<open>
  \<^verbatim>\<open>datetime.now(timezone.utc)\<close> returns an aware \<open>datetime\<close> whose \<open>tzinfo\<close> is the
  constant \<open>timezone.utc\<close>, so its UTC offset is zero whatever the clock says; the fields
  that vary are those of the record. \<open>isoformat()\<close> prints
  \<open>YYYY-MM-DDTHH:MM:SS\<close>, then \<open>.ffffff\<close> when the microsecond is not zero, then the
  offset \<open>+HH:MM\<close>, which is \<open>+00:00\<close> here.
\<close>

record datetime =
  year :: nat
  month :: nat
  day :: nat
  hour :: nat
  minute :: nat
  second :: nat
  microsecond :: nat

definition utcoffset_minutes :: "datetime \<Rightarrow> int" where
  "utcoffset_minutes d = 0"

definition format_offset :: "int \<Rightarrow> str" where
  "format_offset off =
     (if off < 0 then lit ''-'' else lit ''+'')
     @ zpad 2 (nat \<bar>off\<bar> div 60) @ lit '':'' @ zpad 2 (nat \<bar>off\<bar> mod 60)"

definition isoformat :: "datetime \<Rightarrow> str" where
  "isoformat d =
     zpad 4 (year d) @ lit ''-'' @ zpad 2 (month d) @ lit ''-'' @ zpad 2 (day d)
     @ lit ''T'' @ zpad 2 (hour d) @ lit '':'' @ zpad 2 (minute d) @ lit '':''
     @ zpad 2 (second d)
     @ (if microsecond d \<noteq> 0 then lit ''.'' @ zpad 6 (microsecond d) else [])
     @ format_offset (utcoffset_minutes d)"

text \<open>The invariant of Python's \<open>datetime\<close> type (\<open>MINYEAR = 1\<close>, \<open>MAXYEAR = 9999\<close>).\<close>

definition is_leap :: "nat \<Rightarrow> bool" where
  "is_leap y = (y mod 4 = 0 \<and> (y mod 100 \<noteq> 0 \<or> y mod 400 = 0))"

definition days_in_month :: "nat \<Rightarrow> nat \<Rightarrow> nat" where
  "days_in_month y m =
     (if m = 2 then (if is_leap y then 29 else 28)
      else if m = 4 \<or> m = 6 \<or> m = 9 \<or> m = 11 then 30 else 31)"

definition valid_datetime :: "datetime \<Rightarrow> bool" where
  "valid_datetime d =
     (1 \<le> year d \<and> year d \<le> 9999 \<and> 1 \<le> month d \<and> month d \<le> 12
      \<and> 1 \<le> day d \<and> day d \<le> days_in_month (year d) (month d)
      \<and> hour d < 24 \<and> minute d < 60 \<and> second d < 60 \<and> microsecond d < 1000000)"

section \<open>\<open>repr\<close>, \<open>str\<close> and \<open>print\<close>\<close>

text \<open>
  \<open>repr\<close> of a \<open>str\<close> (CPython's \<open>unicode_repr\<close>): the quote is \<open>"\<close> when the string
  holds a \<open>'\<close> and no \<open>"\<close>, and \<open>'\<close> otherwise; the quote and the backslash are
  escaped with a backslash; tab, newline and carriage return are \<open>\t\<close>, \<open>\n\<close>, \<open>\r\<close>;
  the other code points below space and DEL are \<open>\xhh\<close>; the rest of ASCII is copied;
  a code point from 128 on is copied when the interpreter's Unicode database calls it
  printable, and is \<open>\xhh\<close>, \<open>\uhhhh\<close> or \<open>\Uhhhhhhhh\<close> by its size when not. The
  database is no part of the notebooks: it is the parameter \<open>U\<close>. Code point 92 is
  the backslash, 39 and 34 are the two quotes, and 116, 110, 114, 120, 117 and 85 are
  the letters t, n, r, x, u and U.
\<close>

definition quote_of :: "str \<Rightarrow> nat" where
  "quote_of s = (if 39 \<in> set s \<and> 34 \<notin> set s then 34 else 39)"

definition repr_char :: "(nat \<Rightarrow> bool) \<Rightarrow> nat \<Rightarrow> nat \<Rightarrow> str" where
  "repr_char U q c =
     (if c = q \<or> c = 92 then [92, c]
      else if c = 9 then [92, 116]
      else if c = 10 then [92, 110]
      else if c = 13 then [92, 114]
      else if c < 32 \<or> c = 127 then [92, 120] @ hexpad 2 c
      else if c < 127 then [c]
      else if U c then [c]
      else if c \<le> 255 then [92, 120] @ hexpad 2 c
      else if c \<le> 65535 then [92, 117] @ hexpad 4 c
      else [92, 85] @ hexpad 8 c)"

definition repr_str :: "(nat \<Rightarrow> bool) \<Rightarrow> str \<Rightarrow> str" where
  "repr_str U s = quote_of s # concat (map (repr_char U (quote_of s)) s) @ [quote_of s]"

fun join :: "str \<Rightarrow> str list \<Rightarrow> str" where
  "join sep [] = []"
| "join sep [x] = x"
| "join sep (x # y # ys) = x @ sep @ join sep (y # ys)"

definition repr_list :: "(nat \<Rightarrow> bool) \<Rightarrow> str list \<Rightarrow> str" where
  "repr_list U xs = lit ''['' @ join (lit '', '') (map (repr_str U) xs) @ lit '']''"

text \<open>
  The arguments that the cell hands to \<open>print\<close> are strings and one list of strings.
  \<open>print(a, b)\<close> writes \<open>str(a)\<close>, a space, \<open>str(b)\<close> and a newline to standard output;
  \<open>str\<close> of a string is the string, \<open>str\<close> of a list is its \<open>repr\<close>.
\<close>

datatype pyobj = Str str | StrList "str list"

fun str_of :: "(nat \<Rightarrow> bool) \<Rightarrow> pyobj \<Rightarrow> str" where
  "str_of U (Str s) = s"
| "str_of U (StrList xs) = repr_list U xs"

section \<open>The process and the cell\<close>

text \<open>
  An exception is known by the name of its class. The world of a run is what the cell
  can read or change:
  \<^item> standard output: the text it has taken so far, whether \<open>sys.stdout\<close> is a stream at
    all (it is \<open>None\<close> in a process started without one), and the answer of the stream
    to a write, given the text it holds and the text offered: the exception it raises
    (\<open>UnicodeEncodeError\<close> for a code point its encoding lacks, \<open>OSError\<close> or
    \<open>ValueError\<close> for a broken or closed stream), or none when it takes the text;
  \<^item> the outcome of each ambient read (\<open>Inl\<close> the exception it raises, \<open>Inr\<close> the value
    it returns) and the interpreter's table of printable code points;
  \<^item> the import system: the modules already in \<open>sys.modules\<close>, and what loading a
    module that is not there does on this host, which is to raise, or to succeed and
    write the byte-code cache files given, its own and those of the modules it pulls in
    (none when the cache is up to date or writing it is off);
  \<^item> the processor query of \<open>platform.platform()\<close>: the commands that the call runs
    in a child process (\<open>uname -p\<close> on the first call in a process, none once the
    answer is cached), the byte-code cache files written when the query imports the
    modules it needs, and the commands run in child processes so far;
  \<^item> the files and the network traffic of the process.
\<close>

datatype exn = Exn string

record world =
  stdout :: str
  stdout_open :: bool
  stream :: "str \<Rightarrow> str \<Rightarrow> exn option"
  clock :: "exn + datetime"
  python_version :: "exn + str"
  platform :: "exn + str"
  environ :: "exn + env_table"
  unicode_printable :: "nat \<Rightarrow> bool"
  sys_modules :: "string list"
  loader :: "string \<Rightarrow> exn + (str \<times> str) list"
  uname_probe :: "str list"
  probe_files :: "(str \<times> str) list"
  children :: "str list"
  files :: "(str \<times> str) list"
  network_log :: "str list"

text \<open>
  A statement either completes or raises; both leave a world behind. The cell has no
  \<open>try\<close>, so a sequence of statements stops at the first exception, which goes to the
  host, with the text already written left on standard output.
\<close>

type_synonym stmt = "world \<Rightarrow> exn option \<times> world"

fun exec :: "stmt list \<Rightarrow> stmt" where
  "exec [] w = (None, w)"
| "exec (s # ss) w =
     (case s w of (Some e, w') \<Rightarrow> (Some e, w') | (None, w') \<Rightarrow> exec ss w')"

text \<open>
  \<open>print(a, b)\<close> returns at once when \<open>sys.stdout\<close> is \<open>None\<close>. Otherwise it writes
  \<open>str(a)\<close>, a space, \<open>str(b)\<close> and a newline, one write after the other, and stops at
  the first write that raises; \<open>str\<close> of a string is the string, \<open>str\<close> of a list is its
  \<open>repr\<close>.
\<close>

definition write_text :: "str \<Rightarrow> stmt" where
  "write_text piece w =
     (case stream w (stdout w) piece of
        Some e \<Rightarrow> (Some e, w)
      | None \<Rightarrow> (None, w\<lparr>stdout := stdout w @ piece\<rparr>))"

fun print_pieces :: "str list \<Rightarrow> str list" where
  "print_pieces [] = [[newline]]"
| "print_pieces [x] = [x, [newline]]"
| "print_pieces (x # y # ys) = x # lit '' '' # print_pieces (y # ys)"

definition print :: "pyobj list \<Rightarrow> stmt" where
  "print args w =
     (if stdout_open w
      then exec (map write_text (print_pieces (map (str_of (unicode_printable w)) args))) w
      else (None, w))"

text \<open>
  \<open>import m\<close> binds the module when it is in \<open>sys.modules\<close>, and loads it when not.
\<close>

definition import_module :: "string \<Rightarrow> stmt" where
  "import_module m w =
     (if m \<in> set (sys_modules w) then (None, w)
      else (case loader w m of
              Inl e \<Rightarrow> (Some e, w)
            | Inr cache \<Rightarrow>
                (None, w\<lparr>sys_modules := sys_modules w @ [m], files := files w @ cache\<rparr>)))"

text \<open>An import that does not raise: the module is loaded, or its loading succeeds.\<close>

definition importable :: "world \<Rightarrow> string \<Rightarrow> bool" where
  "importable w m = (m \<in> set (sys_modules w) \<or> \<not> isl (loader w m))"

text \<open>
  The statements of the cell, which are the same text in both notebooks. The arguments
  of a \<open>print\<close> are evaluated before it writes, so a read that raises writes nothing.
  \<^verbatim>\<open>
  import os, platform
  from datetime import datetime, timezone

  print("Fabric Git smoke test [U+2705]")
  print("UTC now:", datetime.now(timezone.utc).isoformat())
  print("Python:", platform.python_version())
  print("Platform:", platform.platform())
  print("Sample env var keys:", sorted(list(os.environ.keys()))[:10])
  \<close>
\<close>

definition import_os_platform :: stmt where
  "import_os_platform = exec [import_module ''os'', import_module ''platform'']"

definition from_datetime_import :: stmt where
  "from_datetime_import = import_module ''datetime''"

definition greeting :: str where
  "greeting = lit ''Fabric Git smoke test '' @ [0x2705]"

definition print_greeting :: stmt where
  "print_greeting = print [Str greeting]"

definition print_utc_now :: stmt where
  "print_utc_now w =
     (case clock w of
        Inl e \<Rightarrow> (Some e, w)
      | Inr now \<Rightarrow> print [Str (lit ''UTC now:''), Str (isoformat now)] w)"

definition print_python :: stmt where
  "print_python w =
     (case python_version w of
        Inl e \<Rightarrow> (Some e, w)
      | Inr v \<Rightarrow> print [Str (lit ''Python:''), Str v] w)"

text \<open>
  \<open>platform.platform()\<close> unpacks \<open>uname()\<close>, which asks a child process for the
  processor name unless the process has the answer already; for that it imports
  \<open>subprocess\<close>.
\<close>

definition run_uname_probe :: "world \<Rightarrow> world" where
  "run_uname_probe w =
     (if uname_probe w = [] then w
      else w\<lparr>children := children w @ uname_probe w, files := files w @ probe_files w,
             uname_probe := []\<rparr>)"

definition print_platform :: stmt where
  "print_platform w =
     (case platform w of
        Inl e \<Rightarrow> (Some e, run_uname_probe w)
      | Inr p \<Rightarrow> print [Str (lit ''Platform:''), Str p] (run_uname_probe w))"

definition print_env_sample :: stmt where
  "print_env_sample w =
     (case environ w of
        Inl e \<Rightarrow> (Some e, w)
      | Inr env \<Rightarrow> print [Str (lit ''Sample env var keys:''), StrList (env_key_sample env)] w)"

text \<open>
  The cell of \<open>demo_notebook.Notebook/notebook-content.py\<close> (lines 12 to 19) and the cell
  of \<open>deployment_notebook.Notebook/notebook-content.py\<close> (lines 16 to 23); the comment
  and metadata lines are no statements.
\<close>

definition demo_cell :: "stmt list" where
  "demo_cell =
     [import_os_platform, from_datetime_import,
      print_greeting, print_utc_now, print_python, print_platform, print_env_sample]"

definition deployment_cell :: "stmt list" where
  "deployment_cell =
     [import_os_platform, from_datetime_import,
      print_greeting, print_utc_now, print_python, print_platform, print_env_sample]"

definition demo_notebook :: stmt where
  "demo_notebook = exec demo_cell"

definition deployment_notebook :: stmt where
  "deployment_notebook = exec deployment_cell"

text \<open>The text that a run adds to standard output, and its lines.\<close>

definition written :: "stmt \<Rightarrow> world \<Rightarrow> str" where
  "written cell w = drop (length (stdout w)) (stdout (snd (cell w)))"

fun split_lines :: "str \<Rightarrow> str list" where
  "split_lines [] = []"
| "split_lines (c # cs) =
     (if c = newline then [] # split_lines cs
      else (case split_lines cs of [] \<Rightarrow> [[c]] | l # ls \<Rightarrow> (c # l) # ls))"

definition single_line :: "str \<Rightarrow> bool" where
  "single_line s = (newline \<notin> set s)"


definition same_host :: "world \<Rightarrow> world \<Rightarrow> bool" where
  "same_host w w' =
     (stdout_open w' = stdout_open w \<and> stream w' = stream w \<and> clock w' = clock w
      \<and> python_version w' = python_version w \<and> platform w' = platform w
      \<and> environ w' = environ w \<and> unicode_printable w' = unicode_printable w
      \<and> loader w' = loader w \<and> probe_files w' = probe_files w
      \<and> network_log w' = network_log w)"

definition grows :: "world \<Rightarrow> world \<Rightarrow> bool" where
  "grows w w' =
     ((\<exists>out. stdout w' = stdout w @ out) \<and> (\<exists>fs. files w' = files w @ fs)
      \<and> (\<exists>cs. children w' = children w @ cs)
      \<and> (\<exists>ms. sys_modules w' = sys_modules w @ ms))"

section \<open>Reading ISO 8601\<close>

text \<open>
  What the specification means by a timestamp that parses as valid ISO 8601 and carries
  a UTC offset: the extended format of a calendar date and a time of day, an optional
  decimal fraction of the second, and a zone designator, which is \<open>Z\<close> or a signed
  \<open>hh:mm\<close>. The reader returns the fields it has read and the offset in minutes, and
  nothing when the text has another shape, has no designator, or names no real date.
\<close>

definition is_digit :: "nat \<Rightarrow> bool" where
  "is_digit c = (48 \<le> c \<and> c \<le> 57)"

definition digits_value :: "str \<Rightarrow> nat" where
  "digits_value ds = foldl (\<lambda>a c. 10 * a + (c - 48)) 0 ds"

definition take_digits :: "nat \<Rightarrow> str \<Rightarrow> (nat \<times> str) option" where
  "take_digits k s =
     (if k \<le> length s \<and> list_all is_digit (take k s)
      then Some (digits_value (take k s), drop k s) else None)"

definition expect :: "nat \<Rightarrow> str \<Rightarrow> str option" where
  "expect c s = (case s of [] \<Rightarrow> None | x # xs \<Rightarrow> if x = c then Some xs else None)"

definition parse_fraction :: "str \<Rightarrow> (nat \<times> str) option" where
  "parse_fraction s =
     (case s of
        [] \<Rightarrow> Some (0, [])
      | c # cs \<Rightarrow>
          if c = 46 then
            (if takeWhile is_digit cs = [] then None
             else Some (digits_value (take 6 (takeWhile is_digit cs @ replicate 6 48)),
                        dropWhile is_digit cs))
          else Some (0, s))"

definition parse_offset :: "str \<Rightarrow> int option" where
  "parse_offset s =
     (case s of
        [] \<Rightarrow> None
      | c # cs \<Rightarrow>
          if c = 90 then (if cs = [] then Some 0 else None)
          else if c = 43 \<or> c = 45 then
            do {
              (h, r1) \<leftarrow> take_digits 2 cs;
              r2 \<leftarrow> expect 58 r1;
              (m, r3) \<leftarrow> take_digits 2 r2;
              if r3 = [] \<and> h < 24 \<and> m < 60
              then Some ((if c = 45 then - 1 else 1) * int (60 * h + m))
              else None
            }
          else None)"

definition iso8601_parse :: "str \<Rightarrow> (datetime \<times> int) option" where
  "iso8601_parse s =
     do {
       (y, r1) \<leftarrow> take_digits 4 s;
       r2 \<leftarrow> expect 45 r1;
       (mo, r3) \<leftarrow> take_digits 2 r2;
       r4 \<leftarrow> expect 45 r3;
       (d, r5) \<leftarrow> take_digits 2 r4;
       r6 \<leftarrow> expect 84 r5;
       (h, r7) \<leftarrow> take_digits 2 r6;
       r8 \<leftarrow> expect 58 r7;
       (mi, r9) \<leftarrow> take_digits 2 r8;
       r10 \<leftarrow> expect 58 r9;
       (sec, r11) \<leftarrow> take_digits 2 r10;
       (us, r12) \<leftarrow> parse_fraction r11;
       off \<leftarrow> parse_offset r12;
       (let dt = \<lparr>year = y, month = mo, day = d, hour = h, minute = mi, second = sec,
                   microsecond = us\<rparr>
        in if valid_datetime dt then Some (dt, off) else None)
     }"

section \<open>Sample worlds\<close>

text \<open>
  \<open>host env\<close> is a process in the middle of its life: standard output takes every write,
  the three modules are loaded and the platform query is cached. \<open>fresh_process\<close> has
  loaded \<open>os\<close> only, has no byte-code cache for the other modules and has not asked
  for the processor name yet. \<open>ascii_stdout\<close> has a standard output that encodes ASCII
  only, \<open>no_stdout\<close> has none. \<open>broken_clock\<close> cannot read its clock. \<open>second_run\<close> is the world that a first
  run leaves, at a later time.
\<close>

definition noon :: datetime where
  "noon = \<lparr>year = 2024, month = 2, day = 29, hour = 12, minute = 0, second = 0,
            microsecond = 0\<rparr>"

definition later :: datetime where
  "later = \<lparr>year = 2024, month = 3, day = 7, hour = 9, minute = 5, second = 1,
             microsecond = 42\<rparr>"

definition host :: "env_table \<Rightarrow> world" where
  "host env =
     \<lparr>stdout = [], stdout_open = True, stream = (\<lambda>held piece. None),
      clock = Inr noon, python_version = Inr (lit ''3.11.8''),
      platform = Inr (lit ''Linux-5.15-x86_64''), environ = Inr env,
      unicode_printable = (\<lambda>c. False),
      sys_modules = [''os'', ''platform'', ''datetime''], loader = (\<lambda>m. Inr []),
      uname_probe = [], probe_files = [], children = [], files = [], network_log = []\<rparr>"

definition zeta_alpha :: env_table where
  "zeta_alpha = [(lit ''ZETA'', lit ''1''), (lit ''ALPHA'', lit ''2'')]"





definition second_run :: world where
  "second_run = (snd (demo_notebook (host zeta_alpha)))\<lparr>clock := Inr later\<rparr>"

definition fifteen_vars :: env_table where
  "fifteen_vars =
     map (\<lambda>c. ([86, c], [])) [79, 78, 77, 76, 75, 74, 73, 72, 71, 70, 69, 68, 67, 66, 65]"

declare dec.simps [simp del] hex.simps [simp del]

section \<open>Decimal digits\<close>

lemma dec_digits: "list_all is_digit (dec n)"
proof (induction n rule: dec.induct)
  case (1 n)
  show ?case
  proof (cases "n < 10")
    case True
    then show ?thesis by (subst dec.simps) (simp add: is_digit_def)
  next
    case False
    have "n mod 10 < 10" by simp
    then have "is_digit (48 + n mod 10)" unfolding is_digit_def by linarith
    with False 1 show ?thesis by (subst dec.simps) simp
  qed
qed

lemma digits_value_snoc: "digits_value (ds @ [c]) = 10 * digits_value ds + (c - 48)"
  by (simp add: digits_value_def)

lemma digits_value_dec: "digits_value (dec n) = n"
proof (induction n rule: dec.induct)
  case (1 n)
  show ?case
  proof (cases "n < 10")
    case True
    then show ?thesis by (subst dec.simps) (simp add: digits_value_def)
  next
    case False
    with 1 show ?thesis by (subst dec.simps) (simp add: digits_value_snoc)
  qed
qed

lemma length_dec: "0 < k \<Longrightarrow> n < 10 ^ k \<Longrightarrow> length (dec n) \<le> k"
proof (induction k arbitrary: n)
  case 0
  then show ?case by simp
next
  case (Suc k)
  show ?case
  proof (cases "n < 10")
    case True
    then show ?thesis by (subst dec.simps) simp
  next
    case False
    with Suc.prems have k: "0 < k" by (cases k) auto
    from Suc.prems have "n div 10 < 10 ^ k"
      by (simp add: less_mult_imp_div_less mult.commute)
    with Suc.IH k have "length (dec (n div 10)) \<le> k" by blast
    with False show ?thesis by (subst dec.simps) simp
  qed
qed

lemma digits_value_zeros: "digits_value (replicate j 48 @ ds) = digits_value ds"
proof -
  have "foldl (\<lambda>a c. 10 * a + (c - 48)) 0 (replicate j (48::nat)) = 0"
    by (induction j) simp_all
  then show ?thesis by (simp add: digits_value_def)
qed

lemma length_zpad: "0 < k \<Longrightarrow> n < 10 ^ k \<Longrightarrow> length (zpad k n) = k"
  using length_dec [of k n] by (simp add: zpad_def)

lemma zpad_digits: "list_all is_digit (zpad k n)"
proof -
  have "list_all is_digit (replicate j 48)" for j
    by (induction j) (simp_all add: is_digit_def)
  then show ?thesis
    by (simp add: zpad_def dec_digits)
qed

lemma digits_value_zpad: "digits_value (zpad k n) = n"
  by (simp add: zpad_def digits_value_zeros digits_value_dec)

lemma zpad_2_0: "zpad 2 0 = [48, 48]"
proof -
  have "dec 0 = [48]" by (subst dec.simps) simp
  then show ?thesis by (simp add: zpad_def numeral_2_eq_2)
qed

section \<open>The ISO format is read back\<close>

lemma take_digits_zpad:
  assumes "0 < k" "n < 10 ^ k"
  shows "take_digits k (zpad k n @ r) = Some (n, r)"
  using length_zpad [OF assms] zpad_digits [of k n]
  by (simp add: take_digits_def digits_value_zpad)

lemma expect_Cons: "expect c (c # r) = Some r"
  by (simp add: expect_def)

lemma parse_fraction_none: "c \<noteq> 46 \<Longrightarrow> parse_fraction (c # r) = Some (0, c # r)"
  by (simp add: parse_fraction_def)

lemma parse_fraction_zpad:
  assumes "us < 10 ^ 6" "\<not> is_digit c"
  shows "parse_fraction (46 # zpad 6 us @ c # r) = Some (us, c # r)"
proof -
  have len: "length (zpad 6 us) = 6"
    using assms(1) by (simp add: length_zpad)
  have dig: "\<forall>x \<in> set (zpad 6 us). is_digit x"
    using zpad_digits [of 6 us] by (simp add: list_all_iff)
  have tw: "takeWhile is_digit (zpad 6 us @ c # r) = zpad 6 us"
    using dig assms(2) by simp
  have dw: "dropWhile is_digit (zpad 6 us @ c # r) = c # r"
    using dig assms(2) by simp
  have ne: "zpad 6 us \<noteq> []"
    using len by auto
  show ?thesis
    unfolding parse_fraction_def using len ne
    by (simp add: tw dw digits_value_zpad)
qed

lemma format_offset_utc: "format_offset 0 = lit ''+00:00''"
  by (simp add: format_offset_def zpad_2_0 lit_def)

lemma parse_offset_utc: "parse_offset (format_offset 0) = Some 0"
proof -
  have t: "take_digits 2 (zpad 2 0 @ r) = Some (0, r)" for r
    by (rule take_digits_zpad) simp_all
  have "format_offset 0 = 43 # zpad 2 0 @ 58 # zpad 2 0 @ []"
    by (simp add: format_offset_def lit_def)
  then show ?thesis
    by (simp add: parse_offset_def t expect_Cons del: append_Nil2)
qed

lemma format_offset_utc_head: "format_offset 0 = 43 # tl (format_offset 0)"
  by (simp add: format_offset_def lit_def)

lemma parse_fraction_tail:
  assumes "us < 10 ^ 6"
  shows "parse_fraction ((if us \<noteq> 0 then 46 # zpad 6 us else []) @ format_offset 0)
         = Some (us, format_offset 0)"
proof (cases "us = 0")
  case True
  have "parse_fraction (43 # tl (format_offset 0)) = Some (0, 43 # tl (format_offset 0))"
    by (rule parse_fraction_none) simp
  then have "parse_fraction (format_offset 0) = Some (0, format_offset 0)"
    by (simp add: format_offset_utc_head [symmetric])
  with True show ?thesis by simp
next
  case False
  have nd: "\<not> is_digit 43" by (simp add: is_digit_def)
  from False show ?thesis
    using parse_fraction_zpad [OF assms nd, of "tl (format_offset 0)"]
    by (simp add: format_offset_utc_head [symmetric])
qed

lemma isoformat_roundtrip:
  assumes "valid_datetime d"
  shows "iso8601_parse (isoformat d) = Some (d, 0)"
proof -
  from assms have y: "year d < 10 ^ 4" and mo: "month d < 10 ^ 2" and dd: "day d < 10 ^ 2"
    and h: "hour d < 10 ^ 2" and mi: "minute d < 10 ^ 2" and s: "second d < 10 ^ 2"
    and us: "microsecond d < 10 ^ 6"
    by (auto simp: valid_datetime_def days_in_month_def split: if_splits)
  note td = take_digits_zpad [of 4 "year d", OF _ y] take_digits_zpad [of 2 "month d", OF _ mo]
    take_digits_zpad [of 2 "day d", OF _ dd] take_digits_zpad [of 2 "hour d", OF _ h]
    take_digits_zpad [of 2 "minute d", OF _ mi] take_digits_zpad [of 2 "second d", OF _ s]
  define tail where
    "tail = (if microsecond d \<noteq> 0 then 46 # zpad 6 (microsecond d) else []) @ format_offset 0"
  have frac: "parse_fraction tail = Some (microsecond d, format_offset 0)"
    unfolding tail_def by (rule parse_fraction_tail [OF us])
  have d: "\<lparr>year = year d, month = month d, day = day d, hour = hour d, minute = minute d,
            second = second d, microsecond = microsecond d\<rparr> = d"
    by simp
  have "isoformat d = zpad 4 (year d) @ 45 # zpad 2 (month d) @ 45 # zpad 2 (day d)
     @ 84 # zpad 2 (hour d) @ 58 # zpad 2 (minute d) @ 58 # zpad 2 (second d) @ tail"
    by (simp add: isoformat_def lit_def utcoffset_minutes_def tail_def)
  then show ?thesis
    using assms by (simp add: iso8601_parse_def td expect_Cons frac parse_offset_utc d)
qed

lemma isoformat_ends_with_offset:
  "drop (length (isoformat d) - 6) (isoformat d) = lit ''+00:00''"
proof -
  obtain body where b: "isoformat d = body @ lit ''+00:00''"
    by (simp add: isoformat_def utcoffset_minutes_def format_offset_utc)
  have "length (lit ''+00:00'') = 6" by (simp add: lit_def)
  then show ?thesis by (simp add: b)
qed

section \<open>Texts without a line break\<close>

lemma not_digit_newline: "\<not> is_digit newline"
  by (simp add: is_digit_def newline_def)

lemma single_line_zpad: "single_line (zpad k n)"
  using zpad_digits [of k n] not_digit_newline
  by (auto simp: single_line_def list_all_iff)

lemma single_line_append: "single_line (xs @ ys) \<longleftrightarrow> single_line xs \<and> single_line ys"
  by (auto simp: single_line_def)

lemma single_line_Cons: "single_line (c # cs) \<longleftrightarrow> c \<noteq> newline \<and> single_line cs"
  by (auto simp: single_line_def)

lemma single_line_Nil: "single_line []"
  by (simp add: single_line_def)

lemmas single_line_simps = single_line_append single_line_Cons single_line_Nil

lemma single_line_isoformat: "single_line (isoformat d)"
  by (simp add: isoformat_def format_offset_def utcoffset_minutes_def lit_def
      single_line_simps single_line_zpad newline_def)

lemma hex_digit_ge: "48 \<le> hex_digit d"
  by (simp add: hex_digit_def)

lemma single_line_hex: "single_line (hex n)"
proof (induction n rule: hex.induct)
  case (1 n)
  have nd: "hex_digit d \<noteq> newline" for d
    using hex_digit_ge [of d] by (simp add: newline_def)
  show ?case
  proof (cases "n < 16")
    case True
    then show ?thesis by (subst hex.simps) (simp add: single_line_simps nd)
  next
    case False
    with 1 show ?thesis by (subst hex.simps) (simp add: single_line_simps nd)
  qed
qed

lemma single_line_hexpad: "single_line (hexpad k n)"
proof -
  have "single_line (replicate j 48)" for j
    by (induction j) (simp_all add: single_line_simps newline_def)
  then show ?thesis
    by (simp add: hexpad_def single_line_simps single_line_hex)
qed

lemma single_line_repr_char:
  assumes "q = 34 \<or> q = 39"
  shows "single_line (repr_char U q c)"
  using assms
  by (auto simp: repr_char_def single_line_simps single_line_hexpad newline_def)

lemma single_line_concat: "(\<And>x. x \<in> set xs \<Longrightarrow> single_line x) \<Longrightarrow> single_line (concat xs)"
  by (induction xs) (simp_all add: single_line_simps)

lemma quote_of_cases: "quote_of s = 34 \<or> quote_of s = 39"
  by (simp add: quote_of_def)

lemma single_line_repr_str: "single_line (repr_str U s)"
proof -
  have q: "quote_of s \<noteq> newline"
    using quote_of_cases [of s] by (auto simp: newline_def)
  have "single_line (concat (map (repr_char U (quote_of s)) s))"
    by (rule single_line_concat) (auto simp: single_line_repr_char [OF quote_of_cases])
  with q show ?thesis
    by (simp add: repr_str_def single_line_simps)
qed

lemma single_line_join:
  "single_line sep \<Longrightarrow> (\<And>x. x \<in> set xs \<Longrightarrow> single_line x) \<Longrightarrow> single_line (join sep xs)"
  by (induction sep xs rule: join.induct) (simp_all add: single_line_simps)

lemma single_line_repr_list: "single_line (repr_list U xs)"
proof -
  have "single_line (join (lit '', '') (map (repr_str U) xs))"
    by (rule single_line_join)
       (auto simp: lit_def single_line_simps newline_def single_line_repr_str)
  then show ?thesis
    by (simp add: repr_list_def lit_def single_line_simps newline_def)
qed

lemma single_line_greeting: "single_line greeting"
  by (simp add: greeting_def lit_def single_line_simps newline_def)

lemma single_line_label:
  "single_line x \<Longrightarrow> single_line (lit ''UTC now: '' @ x)"
  "single_line x \<Longrightarrow> single_line (lit ''Python: '' @ x)"
  "single_line x \<Longrightarrow> single_line (lit ''Platform: '' @ x)"
  "single_line x \<Longrightarrow> single_line (lit ''Sample env var keys: '' @ x)"
  by (simp_all add: lit_def single_line_simps newline_def)

section \<open>Lines of a text\<close>

lemma split_lines_line:
  "single_line l \<Longrightarrow> split_lines (l @ newline # rest) = l # split_lines rest"
  by (induction l) (simp_all add: single_line_simps)

lemma split_lines_eq_Nil: "split_lines zs = [] \<longleftrightarrow> zs = []"
  by (cases zs) (auto split: list.splits)

lemma split_lines_append:
  "split_lines (xs @ newline # ys) = split_lines (xs @ [newline]) @ split_lines ys"
proof (induction xs)
  case Nil
  show ?case by simp
next
  case (Cons c xs)
  obtain l ls where l: "split_lines (xs @ [newline]) = l # ls"
    using split_lines_eq_Nil [of "xs @ [newline]"] by (cases "split_lines (xs @ [newline])") auto
  have ih: "split_lines (xs @ newline # ys) = (l # ls) @ split_lines ys"
    unfolding l [symmetric] by (rule Cons.IH)
  show ?case by (simp add: ih l)
qed

lemma last_split_lines:
  assumes "single_line l"
  shows "last (split_lines (pre @ newline # l @ [newline])) = l"
proof -
  have "split_lines (l @ [newline]) = [l]"
    using split_lines_line [OF assms, of "[]"] by simp
  then show ?thesis
    by (subst split_lines_append) simp
qed

section \<open>Smallest and largest entries of a sorted list\<close>

lemma sorted_take_drop_le:
  assumes "sorted xs" "x \<in> set (take n xs)" "y \<in> set (drop n xs)"
  shows "x \<le> (y :: 'a :: linorder)"
proof -
  have "sorted (take n xs @ drop n xs)"
    using assms(1) by simp
  then show ?thesis
    using assms(2,3) unfolding sorted_append by blast
qed

lemma distinct_take_drop_disjoint:
  assumes "distinct xs"
  shows "set (take n xs) \<inter> set (drop n xs) = {}"
proof -
  have "distinct (take n xs @ drop n xs)"
    using assms by simp
  then show ?thesis
    unfolding distinct_append by blast
qed

lemma sort_two_names:
  assumes "distinct ks" "set ks = {a, b}" "a < (b :: str)"
  shows "sort ks = [a, b]"
proof -
  have "sort ks = sorted_list_of_set (set ks)"
    using assms(1) by (simp add: sorted_list_of_set_sort_remdups distinct_remdups_id)
  also have "\<dots> = [a, b]"
  proof -
    have "a \<le> b" "a \<noteq> b" using assms(3) by simp_all
    then show ?thesis by (simp add: assms(2))
  qed
  finally show ?thesis .
qed

section \<open>Sequences of statements\<close>

lemma exec_invariant:
  assumes "\<And>s w'. s \<in> set ss \<Longrightarrow> P w' \<Longrightarrow> P (snd (s w'))" and "P w"
  shows "P (snd (exec ss w))"
  using assms
proof (induction ss arbitrary: w)
  case Nil
  then show ?case by simp
next
  case (Cons s ss)
  have step: "P (snd (s w))"
    by (rule Cons.prems(1) [OF _ Cons.prems(2)]) simp
  have rest: "\<And>s' w'. s' \<in> set ss \<Longrightarrow> P w' \<Longrightarrow> P (snd (s' w'))"
    by (rule Cons.prems(1)) simp_all
  show ?case
  proof (cases "fst (s w)")
    case None
    then have "exec (s # ss) w = exec ss (snd (s w))"
      by (cases "s w") simp
    moreover have "P (snd (exec ss (snd (s w))))"
    proof (rule Cons.IH)
      show "P (snd (s w))" by (rule step)
    next
      fix s' w'
      assume "s' \<in> set ss" and "P w'"
      then show "P (snd (s' w'))" by (rule rest)
    qed
    ultimately show ?thesis by (simp only:)
  next
    case (Some e)
    then have "exec (s # ss) w = s w"
      by (cases "s w") simp
    with step show ?thesis by (simp only:)
  qed
qed

lemma exec_error_source:
  assumes "\<And>s w'. s \<in> set ss \<Longrightarrow> P w' \<Longrightarrow> P (snd (s w'))"
    and "\<And>s w'. s \<in> set ss \<Longrightarrow> P w' \<Longrightarrow> fst (s w') = Some e \<Longrightarrow> Q"
    and "P w" and "fst (exec ss w) = Some e"
  shows Q
  using assms
proof (induction ss arbitrary: w)
  case Nil
  from Nil.prems(4) show ?case by simp
next
  case (Cons s ss)
  have here: "s \<in> set (s # ss)" by simp
  have rest1: "\<And>s' w'. s' \<in> set ss \<Longrightarrow> P w' \<Longrightarrow> P (snd (s' w'))"
    by (rule Cons.prems(1)) simp_all
  have rest2: "\<And>s' w'. s' \<in> set ss \<Longrightarrow> P w' \<Longrightarrow> fst (s' w') = Some e \<Longrightarrow> Q"
    by (rule Cons.prems(2)) simp_all
  show ?case
  proof (cases "fst (s w)")
    case None
    then have "exec (s # ss) w = exec ss (snd (s w))"
      by (cases "s w") simp
    with Cons.prems(4) have e: "fst (exec ss (snd (s w))) = Some e" by (simp only:)
    have "P (snd (s w))"
      by (rule Cons.prems(1) [OF here Cons.prems(3)])
    then show ?thesis
    proof (rule Cons.IH [rotated 2])
      show "fst (exec ss (snd (s w))) = Some e" by (rule e)
    next
      fix s' w'
      assume "s' \<in> set ss" and "P w'"
      then show "P (snd (s' w'))" by (rule rest1)
    next
      fix s' w'
      assume "s' \<in> set ss" and "P w'" and "fst (s' w') = Some e"
      then show Q by (rule rest2)
    qed
  next
    case (Some e')
    then have "exec (s # ss) w = s w"
      by (cases "s w") simp
    with Cons.prems(4) have "fst (s w) = Some e" by (simp only:)
    then show ?thesis
      by (rule Cons.prems(2) [OF here Cons.prems(3)])
  qed
qed

lemma exec_Cons_fst:
  "fst (exec (s # ss) w) = None \<longleftrightarrow> fst (s w) = None \<and> fst (exec ss (snd (s w))) = None"
  by (cases "s w") (auto split: option.splits)

lemma exec_Cons_snd:
  "fst (s w) = None \<Longrightarrow> snd (exec (s # ss) w) = snd (exec ss (snd (s w)))"
  by (cases "s w") simp

lemma exec_Cons_raise:
  "fst (s w) = Some e \<Longrightarrow> exec (s # ss) w = s w"
  by (cases "s w") simp

section \<open>Writing to standard output\<close>

lemma write_text_frame:
  "\<exists>out. snd (write_text p w) = w\<lparr>stdout := stdout w @ out\<rparr>"
proof (cases "stream w (stdout w) p")
  case None
  then have "snd (write_text p w) = w\<lparr>stdout := stdout w @ p\<rparr>"
    by (simp add: write_text_def)
  then show ?thesis by blast
next
  case (Some e)
  then have "snd (write_text p w) = w\<lparr>stdout := stdout w @ []\<rparr>"
    by (simp add: write_text_def)
  then show ?thesis by blast
qed

lemma writes_frame:
  "\<exists>out. snd (exec (map write_text ps) w) = w\<lparr>stdout := stdout w @ out\<rparr>"
proof (rule exec_invariant)
  show "\<exists>out. w = w\<lparr>stdout := stdout w @ out\<rparr>"
    by (rule exI [of _ "[]"]) simp
next
  fix s and w' :: world
  assume s: "s \<in> set (map write_text ps)"
    and "\<exists>out. w' = w\<lparr>stdout := stdout w @ out\<rparr>"
  then obtain out p where w': "w' = w\<lparr>stdout := stdout w @ out\<rparr>" and p: "s = write_text p"
    by auto
  obtain out' where "snd (write_text p w') = w'\<lparr>stdout := stdout w' @ out'\<rparr>"
    using write_text_frame by blast
  then have "snd (s w') = w\<lparr>stdout := stdout w @ (out @ out')\<rparr>"
    by (simp add: p w')
  then show "\<exists>out. snd (s w') = w\<lparr>stdout := stdout w @ out\<rparr>"
    by blast
qed

lemma writes_complete:
  "fst (exec (map write_text ps) w) = None
   \<Longrightarrow> snd (exec (map write_text ps) w) = w\<lparr>stdout := stdout w @ concat ps\<rparr>"
proof (induction ps arbitrary: w)
  case Nil
  then show ?case by simp
next
  case (Cons p ps)
  from Cons.prems have a: "fst (write_text p w) = None"
    and b: "fst (exec (map write_text ps) (snd (write_text p w))) = None"
    by (simp_all add: exec_Cons_fst del: exec.simps(2))
  from a have w1: "snd (write_text p w) = w\<lparr>stdout := stdout w @ p\<rparr>"
    by (simp add: write_text_def split: option.splits)
  have "snd (exec (map write_text (p # ps)) w)
        = snd (exec (map write_text ps) (snd (write_text p w)))"
    using a by (simp add: exec_Cons_snd del: exec.simps(2))
  also have "\<dots> = (snd (write_text p w))\<lparr>stdout := stdout (snd (write_text p w)) @ concat ps\<rparr>"
    by (rule Cons.IH [OF b])
  finally show ?case
    by (simp add: w1)
qed

lemma writes_accepted:
  assumes "\<forall>held piece. stream w held piece = None"
  shows "exec (map write_text ps) w = (None, w\<lparr>stdout := stdout w @ concat ps\<rparr>)"
  using assms
proof (induction ps arbitrary: w)
  case Nil
  then show ?case by simp
next
  case (Cons p ps)
  have "write_text p w = (None, w\<lparr>stdout := stdout w @ p\<rparr>)"
    using Cons.prems by (simp add: write_text_def)
  moreover have "exec (map write_text ps) (w\<lparr>stdout := stdout w @ p\<rparr>)
     = (None, w\<lparr>stdout := stdout w @ p\<rparr>\<lparr>stdout := stdout (w\<lparr>stdout := stdout w @ p\<rparr>) @ concat ps\<rparr>)"
    using Cons.prems by (intro Cons.IH) simp
  ultimately show ?case by simp
qed


section \<open>\<open>print\<close>\<close>

lemma print_frame: "\<exists>out. snd (print args w) = w\<lparr>stdout := stdout w @ out\<rparr>"
proof (cases "stdout_open w")
  case True
  then show ?thesis
    using writes_frame by (simp add: print_def)
next
  case False
  then have "snd (print args w) = w\<lparr>stdout := stdout w @ []\<rparr>"
    by (simp add: print_def)
  then show ?thesis by blast
qed

lemma print_complete:
  assumes "stdout_open w" and "fst (print args w) = None"
  shows "snd (print args w)
         = w\<lparr>stdout := stdout w
                 @ concat (print_pieces (map (str_of (unicode_printable w)) args))\<rparr>"
  using assms by (simp add: print_def writes_complete)

lemma print_accepted:
  assumes "stdout_open w" and "\<forall>held piece. stream w held piece = None"
  shows "print args w
         = (None, w\<lparr>stdout := stdout w
                 @ concat (print_pieces (map (str_of (unicode_printable w)) args))\<rparr>)"
  using assms by (simp add: print_def writes_accepted)

lemma print_closed: "\<not> stdout_open w \<Longrightarrow> print args w = (None, w)"
  by (simp add: print_def)


section \<open>What a statement leaves alone\<close>

lemma same_host_refl: "same_host w w"
  by (simp add: same_host_def)

lemma same_host_trans: "same_host a b \<Longrightarrow> same_host b c \<Longrightarrow> same_host a c"
  by (simp add: same_host_def)

lemma grows_refl: "grows w w"
  by (simp add: grows_def)

lemma grows_trans:
  assumes "grows a b" and "grows b c"
  shows "grows a c"
proof -
  from assms obtain o1 f1 c1 m1 o2 f2 c2 m2 where
    "stdout b = stdout a @ o1" "files b = files a @ f1" "children b = children a @ c1"
    "sys_modules b = sys_modules a @ m1"
    "stdout c = stdout b @ o2" "files c = files b @ f2" "children c = children b @ c2"
    "sys_modules c = sys_modules b @ m2"
    unfolding grows_def by blast
  then have "stdout c = stdout a @ (o1 @ o2)" "files c = files a @ (f1 @ f2)"
    "children c = children a @ (c1 @ c2)" "sys_modules c = sys_modules a @ (m1 @ m2)"
    by simp_all
  then show ?thesis
    unfolding grows_def by blast
qed

lemma stdout_update_same_host: "same_host w (w\<lparr>stdout := x\<rparr>)"
  by (simp add: same_host_def)

lemma stdout_append_grows: "grows w (w\<lparr>stdout := stdout w @ out\<rparr>)"
  by (simp add: grows_def)

lemma print_same_host: "same_host w (snd (print args w))"
  using print_frame [of args w] by (auto simp: stdout_update_same_host)

lemma print_grows: "grows w (snd (print args w))"
  using print_frame [of args w] by (auto simp: stdout_append_grows)

lemma import_module_cases:
  "snd (import_module m w) = w
   \<or> (\<exists>c. loader w m = Inr c \<and> m \<notin> set (sys_modules w)
        \<and> snd (import_module m w)
            = w\<lparr>sys_modules := sys_modules w @ [m], files := files w @ c\<rparr>)"
  by (simp add: import_module_def split: sum.splits)

lemma import_module_same_host: "same_host w (snd (import_module m w))"
  using import_module_cases [of m w] by (auto simp: same_host_def)

lemma import_module_grows: "grows w (snd (import_module m w))"
  using import_module_cases [of m w] by (auto simp: grows_def)

lemma import_module_stdout: "stdout (snd (import_module m w)) = stdout w"
  using import_module_cases [of m w] by auto

lemma run_uname_probe_same_host: "same_host w (run_uname_probe w)"
  by (simp add: same_host_def run_uname_probe_def)

lemma run_uname_probe_grows: "grows w (run_uname_probe w)"
  by (simp add: grows_def run_uname_probe_def)

lemma import_os_platform_same_host: "same_host w (snd (import_os_platform w))"
  unfolding import_os_platform_def
proof (rule exec_invariant [where P = "same_host w"])
  show "same_host w w" by (rule same_host_refl)
next
  fix s and w' :: world
  assume "s \<in> set [import_module ''os'', import_module ''platform'']" and h: "same_host w w'"
  then obtain m where "s = import_module m" by auto
  then show "same_host w (snd (s w'))"
    using h import_module_same_host [of w' m] by (auto intro: same_host_trans)
qed

lemma import_os_platform_grows: "grows w (snd (import_os_platform w))"
  unfolding import_os_platform_def
proof (rule exec_invariant [where P = "grows w"])
  show "grows w w" by (rule grows_refl)
next
  fix s and w' :: world
  assume "s \<in> set [import_module ''os'', import_module ''platform'']" and h: "grows w w'"
  then obtain m where "s = import_module m" by auto
  then show "grows w (snd (s w'))"
    using h import_module_grows [of w' m] by (auto intro: grows_trans)
qed

lemma stmt_same_host:
  assumes "s \<in> set demo_cell"
  shows "same_host w (snd (s w))"
proof -
  from assms consider "s = import_os_platform" | "s = from_datetime_import"
    | "s = print_greeting" | "s = print_utc_now" | "s = print_python" | "s = print_platform"
    | "s = print_env_sample"
    by (auto simp: demo_cell_def)
  then show ?thesis
  proof cases
    case 1
    then show ?thesis by (simp add: import_os_platform_same_host)
  next
    case 2
    then show ?thesis by (simp add: from_datetime_import_def import_module_same_host)
  next
    case 3
    then show ?thesis by (simp add: print_greeting_def print_same_host)
  next
    case 4
    then show ?thesis
      by (simp add: print_utc_now_def print_same_host same_host_refl split: sum.splits)
  next
    case 5
    then show ?thesis
      by (simp add: print_python_def print_same_host same_host_refl split: sum.splits)
  next
    case 6
    have "same_host w (snd (print args (run_uname_probe w)))" for args
      using run_uname_probe_same_host print_same_host by (rule same_host_trans)
    with 6 show ?thesis
      by (simp add: print_platform_def run_uname_probe_same_host split: sum.splits)
  next
    case 7
    then show ?thesis
      by (simp add: print_env_sample_def print_same_host same_host_refl split: sum.splits)
  qed
qed

lemma stmt_grows:
  assumes "s \<in> set demo_cell"
  shows "grows w (snd (s w))"
proof -
  from assms consider "s = import_os_platform" | "s = from_datetime_import"
    | "s = print_greeting" | "s = print_utc_now" | "s = print_python" | "s = print_platform"
    | "s = print_env_sample"
    by (auto simp: demo_cell_def)
  then show ?thesis
  proof cases
    case 1
    then show ?thesis by (simp add: import_os_platform_grows)
  next
    case 2
    then show ?thesis by (simp add: from_datetime_import_def import_module_grows)
  next
    case 3
    then show ?thesis by (simp add: print_greeting_def print_grows)
  next
    case 4
    then show ?thesis
      by (simp add: print_utc_now_def print_grows grows_refl split: sum.splits)
  next
    case 5
    then show ?thesis
      by (simp add: print_python_def print_grows grows_refl split: sum.splits)
  next
    case 6
    have "grows w (snd (print args (run_uname_probe w)))" for args
      using run_uname_probe_grows print_grows by (rule grows_trans)
    with 6 show ?thesis
      by (simp add: print_platform_def run_uname_probe_grows split: sum.splits)
  next
    case 7
    then show ?thesis
      by (simp add: print_env_sample_def print_grows grows_refl split: sum.splits)
  qed
qed

lemma cells_exec:
  "demo_notebook = exec demo_cell" "deployment_notebook = exec demo_cell"
  by (simp_all add: demo_notebook_def deployment_notebook_def demo_cell_def
      deployment_cell_def)




section \<open>Runs that complete\<close>

lemma exec_append_fst:
  "fst (exec (xs @ ys) w) = None
   \<longleftrightarrow> fst (exec xs w) = None \<and> fst (exec ys (snd (exec xs w))) = None"
proof (induction xs arbitrary: w)
  case Nil
  show ?case by simp
next
  case (Cons s xs)
  show ?case
  proof (cases "fst (s w)")
    case None
    then have "exec (s # xs @ ys) w = exec (xs @ ys) (snd (s w))"
      "exec (s # xs) w = exec xs (snd (s w))"
      by (cases "s w"; simp)+
    then show ?thesis using Cons.IH [of "snd (s w)"] by simp
  next
    case (Some e)
    then have "exec (s # xs @ ys) w = s w" "exec (s # xs) w = s w"
      by (cases "s w"; simp)+
    with Some show ?thesis by simp
  qed
qed

lemma exec_append_snd:
  "fst (exec xs w) = None \<Longrightarrow> snd (exec (xs @ ys) w) = snd (exec ys (snd (exec xs w)))"
proof (induction xs arbitrary: w)
  case Nil
  show ?case by simp
next
  case (Cons s xs)
  from Cons.prems have a: "fst (s w) = None" and b: "fst (exec xs (snd (s w))) = None"
    by (simp_all add: exec_Cons_fst del: exec.simps(2))
  from a have "exec (s # xs @ ys) w = exec (xs @ ys) (snd (s w))"
    "exec (s # xs) w = exec xs (snd (s w))"
    by (cases "s w"; simp)+
  then show ?case using Cons.IH [OF b] by simp
qed

lemma import_os_platform_stdout: "stdout (snd (import_os_platform w)) = stdout w"
  unfolding import_os_platform_def
proof (rule exec_invariant [where P = "\<lambda>w'. stdout w' = stdout w"])
  show "stdout w = stdout w" by simp
next
  fix s and w' :: world
  assume "s \<in> set [import_module ''os'', import_module ''platform'']"
    and h: "stdout w' = stdout w"
  then obtain m where "s = import_module m" by auto
  then show "stdout (snd (s w')) = stdout w"
    using h by (simp add: import_module_stdout)
qed

lemma label_space:
  "lit ''UTC now:'' @ lit '' '' @ x = lit ''UTC now: '' @ x"
  "lit ''Python:'' @ lit '' '' @ x = lit ''Python: '' @ x"
  "lit ''Platform:'' @ lit '' '' @ x = lit ''Platform: '' @ x"
  "lit ''Sample env var keys:'' @ lit '' '' @ x = lit ''Sample env var keys: '' @ x"
  by (simp_all add: lit_def)

lemma print_greeting_complete:
  assumes "stdout_open w" and "fst (print_greeting w) = None"
  shows "stdout (snd (print_greeting w)) = stdout w @ greeting @ [newline]"
  using assms print_complete [of w "[Str greeting]"] by (simp add: print_greeting_def)

lemma print_utc_now_complete:
  assumes "clock w = Inr t" and "stdout_open w" and "fst (print_utc_now w) = None"
  shows "stdout (snd (print_utc_now w))
         = stdout w @ (lit ''UTC now: '' @ isoformat t) @ [newline]"
  using assms print_complete [of w "[Str (lit ''UTC now:''), Str (isoformat t)]"]
  by (simp add: print_utc_now_def label_space)

lemma print_python_complete:
  assumes "python_version w = Inr v" and "stdout_open w" and "fst (print_python w) = None"
  shows "stdout (snd (print_python w)) = stdout w @ (lit ''Python: '' @ v) @ [newline]"
  using assms print_complete [of w "[Str (lit ''Python:''), Str v]"]
  by (simp add: print_python_def label_space)

lemma print_platform_complete:
  assumes "platform w = Inr p" and "stdout_open w" and "fst (print_platform w) = None"
  shows "stdout (snd (print_platform w)) = stdout w @ (lit ''Platform: '' @ p) @ [newline]"
proof -
  have k: "stdout_open (run_uname_probe w)" "stdout (run_uname_probe w) = stdout w"
    "unicode_printable (run_uname_probe w) = unicode_printable w"
    using assms(2) by (simp_all add: run_uname_probe_def)
  from assms(1,3) have "fst (print [Str (lit ''Platform:''), Str p] (run_uname_probe w)) = None"
    by (simp add: print_platform_def)
  from print_complete [OF k(1) this] assms(1) show ?thesis
    by (simp add: print_platform_def label_space k)
qed

lemma print_env_sample_complete:
  assumes "environ w = Inr env" and "stdout_open w" and "fst (print_env_sample w) = None"
  shows "stdout (snd (print_env_sample w))
         = stdout w @ (lit ''Sample env var keys: ''
                        @ repr_list (unicode_printable w) (env_key_sample env)) @ [newline]"
  using assms
    print_complete [of w "[Str (lit ''Sample env var keys:''), StrList (env_key_sample env)]"]
  by (simp add: print_env_sample_def label_space)

lemma head_complete:
  assumes "clock w = Inr t" and "stdout_open w"
    and "fst (exec [import_os_platform, from_datetime_import, print_greeting, print_utc_now] w)
         = None"
  shows "stdout (snd (exec [import_os_platform, from_datetime_import, print_greeting,
                            print_utc_now] w))
         = stdout w @ greeting @ newline # (lit ''UTC now: '' @ isoformat t) @ [newline]"
proof -
  define w1 where "w1 = snd (import_os_platform w)"
  define w2 where "w2 = snd (from_datetime_import w1)"
  define w3 where "w3 = snd (print_greeting w2)"
  define w4 where "w4 = snd (print_utc_now w3)"
  have c: "fst (print_greeting w2) = None" "fst (print_utc_now w3) = None"
    and fin: "snd (exec [import_os_platform, from_datetime_import, print_greeting,
                         print_utc_now] w) = w4"
    using assms(3) unfolding w1_def w2_def w3_def w4_def
    by (simp_all add: exec_Cons_fst exec_Cons_snd del: exec.simps(2))
  have h1: "same_host w w1"
    unfolding w1_def by (rule stmt_same_host) (simp add: demo_cell_def)
  have h2: "same_host w w2"
    unfolding w2_def by (rule same_host_trans [OF h1 stmt_same_host]) (simp add: demo_cell_def)
  have h3: "same_host w w3"
    unfolding w3_def by (rule same_host_trans [OF h2 stmt_same_host]) (simp add: demo_cell_def)
  have s2: "stdout w2 = stdout w"
    by (simp add: w2_def w1_def from_datetime_import_def import_module_stdout
        import_os_platform_stdout)
  have s3: "stdout w3 = stdout w2 @ greeting @ [newline]"
    unfolding w3_def using h2 assms(2) c(1)
    by (intro print_greeting_complete) (simp_all add: same_host_def)
  have s4: "stdout w4 = stdout w3 @ (lit ''UTC now: '' @ isoformat t) @ [newline]"
    unfolding w4_def using h3 assms(1,2) c(2)
    by (intro print_utc_now_complete) (simp_all add: same_host_def)
  show ?thesis
    unfolding fin s4 s3 s2 by simp
qed

lemma tail_complete:
  assumes "python_version w = Inr v" "platform w = Inr p" "environ w = Inr env"
    and "stdout_open w"
    and "fst (exec [print_python, print_platform, print_env_sample] w) = None"
  shows "stdout (snd (exec [print_python, print_platform, print_env_sample] w))
         = stdout w @ (lit ''Python: '' @ v) @ newline # (lit ''Platform: '' @ p)
            @ newline # (lit ''Sample env var keys: ''
                          @ repr_list (unicode_printable w) (env_key_sample env)) @ [newline]"
proof -
  define w1 where "w1 = snd (print_python w)"
  define w2 where "w2 = snd (print_platform w1)"
  define w3 where "w3 = snd (print_env_sample w2)"
  have c: "fst (print_python w) = None" "fst (print_platform w1) = None"
    "fst (print_env_sample w2) = None"
    and fin: "snd (exec [print_python, print_platform, print_env_sample] w) = w3"
    using assms(5) unfolding w1_def w2_def w3_def
    by (simp_all add: exec_Cons_fst exec_Cons_snd del: exec.simps(2))
  have h1: "same_host w w1"
    unfolding w1_def by (rule stmt_same_host) (simp add: demo_cell_def)
  have h2: "same_host w w2"
    unfolding w2_def by (rule same_host_trans [OF h1 stmt_same_host]) (simp add: demo_cell_def)
  have s1: "stdout w1 = stdout w @ (lit ''Python: '' @ v) @ [newline]"
    unfolding w1_def using assms(1,4) c(1) by (intro print_python_complete)
  have s2: "stdout w2 = stdout w1 @ (lit ''Platform: '' @ p) @ [newline]"
    unfolding w2_def using h1 assms(2,4) c(2)
    by (intro print_platform_complete) (simp_all add: same_host_def)
  have s3: "stdout w3 = stdout w2 @ (lit ''Sample env var keys: ''
                        @ repr_list (unicode_printable w2) (env_key_sample env)) @ [newline]"
    unfolding w3_def using h2 assms(3,4) c(3)
    by (intro print_env_sample_complete) (simp_all add: same_host_def)
  have u: "unicode_printable w2 = unicode_printable w"
    using h2 by (simp add: same_host_def)
  show ?thesis
    unfolding fin s3 s2 s1 u by simp
qed

lemma demo_cell_split:
  "demo_cell = [import_os_platform, from_datetime_import, print_greeting, print_utc_now]
               @ [print_python, print_platform, print_env_sample]"
  "take 4 demo_cell
   = [import_os_platform, from_datetime_import, print_greeting, print_utc_now]"
  by (simp_all add: demo_cell_def)

lemma head_same_host:
  "same_host w (snd (exec [import_os_platform, from_datetime_import, print_greeting,
                           print_utc_now] w))"
proof (rule exec_invariant [where P = "same_host w"])
  show "same_host w w" by (rule same_host_refl)
next
  fix s and w' :: world
  assume "s \<in> set [import_os_platform, from_datetime_import, print_greeting, print_utc_now]"
    and h: "same_host w w'"
  then have "s \<in> set demo_cell" by (auto simp: demo_cell_def)
  then show "same_host w (snd (s w'))"
    using h stmt_same_host [of s w'] by (auto intro: same_host_trans)
qed

lemma written_complete:
  assumes "clock w = Inr t" "python_version w = Inr v" "platform w = Inr p"
    "environ w = Inr env"
    and "stdout_open w" and "fst (demo_notebook w) = None"
  shows "written demo_notebook w
    = greeting @ newline # (lit ''UTC now: '' @ isoformat t)
        @ newline # (lit ''Python: '' @ v) @ newline # (lit ''Platform: '' @ p)
        @ newline # (lit ''Sample env var keys: ''
                      @ repr_list (unicode_printable w) (env_key_sample env)) @ [newline]"
proof -
  let ?head = "[import_os_platform, from_datetime_import, print_greeting, print_utc_now]"
  let ?tail = "[print_python, print_platform, print_env_sample]"
  define m where "m = snd (exec ?head w)"
  have c: "fst (exec ?head w) = None" "fst (exec ?tail m) = None"
    using assms(6) unfolding cells_exec demo_cell_split(1) m_def
    by (simp_all only: exec_append_fst)
  have fin: "snd (demo_notebook w) = snd (exec ?tail m)"
    unfolding cells_exec demo_cell_split(1) m_def by (rule exec_append_snd [OF c(1)])
  have h: "same_host w m"
    unfolding m_def by (rule head_same_host)
  have s1: "stdout m = stdout w @ greeting @ newline # (lit ''UTC now: '' @ isoformat t)
                        @ [newline]"
    unfolding m_def by (rule head_complete [OF assms(1,5) c(1)])
  have s2: "stdout (snd (exec ?tail m))
         = stdout m @ (lit ''Python: '' @ v) @ newline # (lit ''Platform: '' @ p)
            @ newline # (lit ''Sample env var keys: ''
                          @ repr_list (unicode_printable m) (env_key_sample env)) @ [newline]"
    using h assms(2-5) c(2) by (intro tail_complete) (simp_all add: same_host_def)
  have u: "unicode_printable m = unicode_printable w"
    using h by (simp add: same_host_def)
  show ?thesis
    unfolding written_def fin s2 s1 u by simp
qed

section \<open>Runs in which nothing raises\<close>

lemma exec_all_complete:
  assumes "\<And>s w'. s \<in> set ss \<Longrightarrow> P w' \<Longrightarrow> P (snd (s w'))"
    and "\<And>s w'. s \<in> set ss \<Longrightarrow> P w' \<Longrightarrow> fst (s w') = None"
    and "P w"
  shows "fst (exec ss w) = None"
proof (rule ccontr)
  assume "fst (exec ss w) \<noteq> None"
  then obtain e where e: "fst (exec ss w) = Some e" by auto
  show False
  proof (rule exec_error_source [where P = P and e = e and ss = ss and w = w])
    show "P w" by (rule assms(3))
    show "fst (exec ss w) = Some e" by (rule e)
  next
    fix s w'
    assume "s \<in> set ss" and "P w'"
    then show "P (snd (s w'))" by (rule assms(1))
  next
    fix s w'
    assume "s \<in> set ss" and "P w'" and r: "fst (s w') = Some e"
    then have "fst (s w') = None" by (intro assms(2))
    with r show False by simp
  qed
qed

lemma print_never_raises:
  assumes "\<not> stdout_open w \<or> (\<forall>held piece. stream w held piece = None)"
  shows "fst (print args w) = None"
proof (cases "stdout_open w")
  case True
  with assms have "\<forall>held piece. stream w held piece = None" by simp
  with True show ?thesis by (simp add: print_accepted)
next
  case False
  then show ?thesis by (simp add: print_closed)
qed

lemma import_module_succeeds: "importable w m \<Longrightarrow> fst (import_module m w) = None"
  by (auto simp: importable_def import_module_def split: sum.splits)

lemma importable_later:
  assumes "importable w m" and "same_host w w'" and "grows w w'"
  shows "importable w' m"
  using assms by (auto simp: importable_def same_host_def grows_def)

lemma import_os_platform_succeeds:
  assumes "importable w ''os''" and "importable w ''platform''"
  shows "fst (import_os_platform w) = None"
proof -
  have a: "fst (import_module ''os'' w) = None"
    by (rule import_module_succeeds [OF assms(1)])
  have "importable (snd (import_module ''os'' w)) ''platform''"
    by (rule importable_later [OF assms(2) import_module_same_host import_module_grows])
  then have b: "fst (import_module ''platform'' (snd (import_module ''os'' w))) = None"
    by (rule import_module_succeeds)
  from a b show ?thesis
    by (simp add: import_os_platform_def exec_Cons_fst del: exec.simps(2))
qed

lemma cell_never_raises:
  assumes "clock w = Inr t" "python_version w = Inr v" "platform w = Inr p"
    "environ w = Inr env"
    and "importable w ''os''" "importable w ''platform''" "importable w ''datetime''"
    and "\<not> stdout_open w \<or> (\<forall>held piece. stream w held piece = None)"
  shows "fst (demo_notebook w) = None"
  unfolding cells_exec
proof (rule exec_all_complete [where P = "\<lambda>w'. same_host w w' \<and> grows w w'"])
  show "same_host w w \<and> grows w w"
    by (simp add: same_host_refl grows_refl)
next
  fix s and w' :: world
  assume "s \<in> set demo_cell" and "same_host w w' \<and> grows w w'"
  then show "same_host w (snd (s w')) \<and> grows w (snd (s w'))"
    using stmt_same_host [of s w'] stmt_grows [of s w']
    by (auto intro: same_host_trans grows_trans)
next
  fix s and w' :: world
  assume s: "s \<in> set demo_cell" and h: "same_host w w' \<and> grows w w'"
  have reads: "clock w' = Inr t" "python_version w' = Inr v" "platform w' = Inr p"
    "environ w' = Inr env"
    using h assms(1-4) by (simp_all add: same_host_def)
  have out: "\<not> stdout_open w' \<or> (\<forall>held piece. stream w' held piece = None)"
    using h assms(8) by (simp add: same_host_def)
  have out': "\<not> stdout_open (run_uname_probe w')
              \<or> (\<forall>held piece. stream (run_uname_probe w') held piece = None)"
    using out run_uname_probe_same_host [of w'] by (simp add: same_host_def)
  have imp: "importable w' ''os''" "importable w' ''platform''" "importable w' ''datetime''"
    using h assms(5-7) by (auto intro: importable_later)
  from s consider "s = import_os_platform" | "s = from_datetime_import"
    | "s = print_greeting" | "s = print_utc_now" | "s = print_python" | "s = print_platform"
    | "s = print_env_sample"
    by (auto simp: demo_cell_def)
  then show "fst (s w') = None"
  proof cases
    case 1
    then show ?thesis by (simp add: import_os_platform_succeeds imp)
  next
    case 2
    then show ?thesis by (simp add: from_datetime_import_def import_module_succeeds imp)
  next
    case 3
    then show ?thesis by (simp add: print_greeting_def print_never_raises [OF out])
  next
    case 4
    then show ?thesis by (simp add: print_utc_now_def reads print_never_raises [OF out])
  next
    case 5
    then show ?thesis by (simp add: print_python_def reads print_never_raises [OF out])
  next
    case 6
    then show ?thesis by (simp add: print_platform_def reads print_never_raises [OF out'])
  next
    case 7
    then show ?thesis by (simp add: print_env_sample_def reads print_never_raises [OF out])
  qed
qed

section \<open>Where an exception comes from\<close>







section \<open>The frame of a run\<close>

lemma import_loaded: "m \<in> set (sys_modules w) \<Longrightarrow> import_module m w = (None, w)"
  by (simp add: import_module_def)

lemma quiet_run:
  assumes "''os'' \<in> set (sys_modules w)" "''platform'' \<in> set (sys_modules w)"
    "''datetime'' \<in> set (sys_modules w)" and "uname_probe w = []"
  shows "snd (demo_notebook w) = w\<lparr>stdout := stdout (snd (demo_notebook w))\<rparr>"
proof -
  have "\<exists>out. snd (demo_notebook w) = w\<lparr>stdout := stdout w @ out\<rparr>"
    unfolding cells_exec
  proof (rule exec_invariant [where P = "\<lambda>w'. \<exists>out. w' = w\<lparr>stdout := stdout w @ out\<rparr>"])
    show "\<exists>out. w = w\<lparr>stdout := stdout w @ out\<rparr>"
      by (rule exI [of _ "[]"]) simp
  next
    fix s and w' :: world
    assume s: "s \<in> set demo_cell" and "\<exists>out. w' = w\<lparr>stdout := stdout w @ out\<rparr>"
    then obtain out where w': "w' = w\<lparr>stdout := stdout w @ out\<rparr>" by blast
    have loaded: "''os'' \<in> set (sys_modules w')" "''platform'' \<in> set (sys_modules w')"
      "''datetime'' \<in> set (sys_modules w')"
      using assms(1-3) by (simp_all add: w')
    have probe: "run_uname_probe w' = w'"
      using assms(4) by (simp add: run_uname_probe_def w')
    have pr: "\<exists>out. snd (print args w') = w\<lparr>stdout := stdout w @ out\<rparr>" for args
    proof -
      obtain out' where "snd (print args w') = w'\<lparr>stdout := stdout w' @ out'\<rparr>"
        using print_frame by blast
      then have "snd (print args w') = w\<lparr>stdout := stdout w @ (out @ out')\<rparr>"
        by (simp add: w')
      then show ?thesis by blast
    qed
    have same: "\<exists>out. w' = w\<lparr>stdout := stdout w @ out\<rparr>"
      using w' by blast
    from s consider "s = import_os_platform" | "s = from_datetime_import"
      | "s = print_greeting" | "s = print_utc_now" | "s = print_python" | "s = print_platform"
      | "s = print_env_sample"
      by (auto simp: demo_cell_def)
    then show "\<exists>out. snd (s w') = w\<lparr>stdout := stdout w @ out\<rparr>"
    proof cases
      case 1
      then show ?thesis
        using same by (simp add: import_os_platform_def import_loaded loaded)
    next
      case 2
      then show ?thesis
        using same by (simp add: from_datetime_import_def import_loaded loaded)
    next
      case 3
      then show ?thesis using pr by (simp add: print_greeting_def)
    next
      case 4
      then show ?thesis
        using pr same by (cases "clock w'") (simp_all add: print_utc_now_def)
    next
      case 5
      then show ?thesis
        using pr same by (cases "python_version w'") (simp_all add: print_python_def)
    next
      case 6
      then show ?thesis
        using pr same by (cases "platform w'") (simp_all add: print_platform_def probe)
    next
      case 7
      then show ?thesis
        using pr same by (cases "environ w'") (simp_all add: print_env_sample_def)
    qed
  qed
  then obtain out where "snd (demo_notebook w) = w\<lparr>stdout := stdout w @ out\<rparr>" by blast
  then have "snd (demo_notebook w) = w\<lparr>stdout := stdout w @ out\<rparr>"
    "stdout (snd (demo_notebook w)) = stdout w @ out"
    by simp_all
  then show ?thesis by simp
qed










section \<open>The lines of a run that completes\<close>

lemma lines_complete:
  assumes "clock w = Inr t" "python_version w = Inr v" "platform w = Inr p"
    "environ w = Inr env"
    and "stdout_open w" and "fst (demo_notebook w) = None"
    and "single_line v" "single_line p"
  shows "split_lines (written demo_notebook w)
    = [greeting, lit ''UTC now: '' @ isoformat t, lit ''Python: '' @ v,
       lit ''Platform: '' @ p,
       lit ''Sample env var keys: '' @ repr_list (unicode_printable w) (env_key_sample env)]"
proof -
  note sl = single_line_greeting single_line_label(1) [OF single_line_isoformat [of t]]
    single_line_label(2) [OF assms(7)] single_line_label(3) [OF assms(8)]
    single_line_label(4) [OF single_line_repr_list [of "unicode_printable w" "env_key_sample env"]]
  have five: "split_lines (a @ newline # b @ newline # c @ newline # d @ newline # e @ [newline])
     = [a, b, c, d, e]"
    if "single_line a" "single_line b" "single_line c" "single_line d" "single_line e"
    for a b c d e
    using that by (simp add: split_lines_line)
  show ?thesis
    unfolding written_complete [OF assms(1-6)] by (rule five) (rule sl)+
qed

lemma last_line_complete:
  assumes "clock w = Inr t" "python_version w = Inr v" "platform w = Inr p"
    "environ w = Inr env"
    and "stdout_open w" and "fst (demo_notebook w) = None"
  shows "last (split_lines (written demo_notebook w))
    = lit ''Sample env var keys: '' @ repr_list (unicode_printable w) (env_key_sample env)"
proof -
  let ?l = "lit ''Sample env var keys: '' @ repr_list (unicode_printable w) (env_key_sample env)"
  have sl: "single_line ?l"
    by (rule single_line_label(4)) (rule single_line_repr_list)
  have "written demo_notebook w
    = (greeting @ newline # (lit ''UTC now: '' @ isoformat t)
        @ newline # (lit ''Python: '' @ v) @ newline # (lit ''Platform: '' @ p))
      @ newline # ?l @ [newline]"
    using written_complete [OF assms] by simp
  then show ?thesis
    by (simp only: last_split_lines [OF sl])
qed

lemma tail_grows:
  "grows w (snd (exec [print_python, print_platform, print_env_sample] w))"
proof (rule exec_invariant [where P = "grows w"])
  show "grows w w" by (rule grows_refl)
next
  fix s and w' :: world
  assume "s \<in> set [print_python, print_platform, print_env_sample]" and h: "grows w w'"
  then have "s \<in> set demo_cell" by (auto simp: demo_cell_def)
  then show "grows w (snd (s w'))"
    using h stmt_grows [of s w'] by (auto intro: grows_trans)
qed

lemma head_lines:
  assumes "clock w = Inr t" and "stdout_open w"
    and "fst (exec (take 4 demo_cell) w) = None"
  shows "take 2 (split_lines (written demo_notebook w))
         = [greeting, lit ''UTC now: '' @ isoformat t]"
proof -
  let ?head = "[import_os_platform, from_datetime_import, print_greeting, print_utc_now]"
  let ?tail = "[print_python, print_platform, print_env_sample]"
  define m where "m = snd (exec ?head w)"
  have c: "fst (exec ?head w) = None"
    using assms(3) by (simp only: demo_cell_split(2))
  have fin: "snd (demo_notebook w) = snd (exec ?tail m)"
    unfolding cells_exec demo_cell_split(1) m_def by (rule exec_append_snd [OF c])
  have s1: "stdout m = stdout w @ greeting @ newline # (lit ''UTC now: '' @ isoformat t)
                        @ [newline]"
    unfolding m_def by (rule head_complete [OF assms(1,2) c])
  obtain rest where "stdout (snd (exec ?tail m)) = stdout m @ rest"
    using tail_grows [of m] by (auto simp: grows_def)
  then have out: "written demo_notebook w
     = greeting @ newline # (lit ''UTC now: '' @ isoformat t) @ newline # rest"
    unfolding written_def fin s1 by simp
  have two: "split_lines (a @ newline # b @ newline # r) = a # b # split_lines r"
    if "single_line a" "single_line b" for a b r
    using that by (simp add: split_lines_line)
  have "split_lines (written demo_notebook w)
     = greeting # (lit ''UTC now: '' @ isoformat t) # split_lines rest"
    unfolding out
    by (rule two) (rule single_line_greeting single_line_label(1) single_line_isoformat)+
  then show ?thesis
    by (simp add: numeral_2_eq_2)
qed

section \<open>The sample worlds, evaluated\<close>

lemma lit_append: "lit a @ lit b = lit (a @ b)"
  by (simp add: lit_def)

lemma host_reads:
  "clock (host env) = Inr noon" "python_version (host env) = Inr (lit ''3.11.8'')"
  "platform (host env) = Inr (lit ''Linux-5.15-x86_64'')" "environ (host env) = Inr env"
  by (simp_all add: host_def)

lemma host_stdout:
  "stdout (host env) = []" "stdout_open (host env)"
  "\<not> stdout_open (host env) \<or> (\<forall>held piece. stream (host env) held piece = None)"
  by (simp_all add: host_def)

lemma host_loaded:
  "''os'' \<in> set (sys_modules (host env))" "''platform'' \<in> set (sys_modules (host env))"
  "''datetime'' \<in> set (sys_modules (host env))" "uname_probe (host env) = []"
  by (simp_all add: host_def)

lemma host_importable:
  "importable (host env) ''os''" "importable (host env) ''platform''"
  "importable (host env) ''datetime''"
  by (simp_all add: importable_def host_loaded)

lemma host_completes: "fst (demo_notebook (host env)) = None"
  by (rule cell_never_raises [OF host_reads host_importable host_stdout(3)])

lemma isoformat_noon: "isoformat noon = lit ''2024-02-29T12:00:00+00:00''"
  by code_simp

lemma isoformat_later: "isoformat later = lit ''2024-03-07T09:05:01.000042+00:00''"
  by code_simp

lemma valid_noon_later: "valid_datetime noon" "valid_datetime later"
  by (simp_all add: valid_datetime_def noon_def later_def days_in_month_def is_leap_def)

lemma keys_zeta_alpha: "keys zeta_alpha = [lit ''ZETA'', lit ''ALPHA'']"
  by (simp add: keys_def zeta_alpha_def)

lemma sample_zeta_alpha: "env_key_sample zeta_alpha = [lit ''ALPHA'', lit ''ZETA'']"
  by code_simp

lemma repr_alpha_zeta: "repr_list U [lit ''ALPHA'', lit ''ZETA''] = lit ''['ALPHA', 'ZETA']''"
  by (simp add: repr_list_def repr_str_def quote_of_def repr_char_def lit_def)

lemma repr_empty: "repr_list U [] = lit ''[]''"
  by (simp add: repr_list_def lit_def)

lemma single_line_host: "single_line (lit ''3.11.8'')" "single_line (lit ''Linux-5.15-x86_64'')"
  by (simp_all add: lit_def single_line_simps newline_def)

lemma after_first_run:
  "snd (demo_notebook (host env))
   = (host env)\<lparr>stdout := stdout (snd (demo_notebook (host env)))\<rparr>"
  by (rule quiet_run [OF host_loaded])

lemma second_run_reads:
  "clock second_run = Inr later" "python_version second_run = Inr (lit ''3.11.8'')"
  "platform second_run = Inr (lit ''Linux-5.15-x86_64'')" "environ second_run = Inr zeta_alpha"
  "unicode_printable second_run = unicode_printable (host zeta_alpha)"
  "stdout_open second_run"
  unfolding second_run_def by (subst after_first_run, simp add: host_def)+

lemma second_run_completes: "fst (demo_notebook second_run) = None"
proof (rule cell_never_raises [OF second_run_reads(1-4)])
  have eq: "second_run = (host zeta_alpha)\<lparr>stdout := stdout (snd (demo_notebook (host zeta_alpha))),
                                             clock := Inr later\<rparr>"
    unfolding second_run_def by (subst after_first_run) simp
  show "importable second_run ''os''" "importable second_run ''platform''"
    "importable second_run ''datetime''"
    by (simp_all add: importable_def eq host_def)
  show "\<not> stdout_open second_run \<or> (\<forall>held piece. stream second_run held piece = None)"
    by (simp add: eq host_def)
qed





lemma completes_head:
  assumes "fst (demo_notebook w) = None"
  shows "fst (exec (take 4 demo_cell) w) = None"
proof -
  have "fst (exec ([import_os_platform, from_datetime_import, print_greeting, print_utc_now]
                    @ [print_python, print_platform, print_env_sample]) w) = None"
    using assms by (simp only: cells_exec demo_cell_split(1))
  then have "fst (exec [import_os_platform, from_datetime_import, print_greeting,
                        print_utc_now] w) = None"
    by (simp only: exec_append_fst)
  then show ?thesis
    by (simp only: demo_cell_split(2))
qed

section \<open>The claims\<close>




text \<open>
  C2: the sample has at most ten entries and is sorted ascending, whatever the
  environment is; the names of an environment are unique, and then the sample has no
  duplicate either (so it is strictly ascending). It is this sample that the last line
  of the output lists, in every run that gets there: one that ends without an exception
  on a standard output that is there. A host whose standard output takes every write and
  whose imports succeed is such a run whenever its reads succeed (\<open>cell_never_raises\<close>).
\<close>

theorem env_key_sample_bounded_sorted_distinct:
  "length (env_key_sample env) \<le> 10
   \<and> sorted (env_key_sample env)
   \<and> (distinct (keys env) \<longrightarrow>
        distinct (env_key_sample env) \<and> sorted_wrt (<) (env_key_sample env))
   \<and> (clock w = Inr t \<and> python_version w = Inr v \<and> platform w = Inr p
        \<and> environ w = Inr env \<and> stdout_open w \<and> fst (demo_notebook w) = None \<longrightarrow>
        last (split_lines (written demo_notebook w))
        = lit ''Sample env var keys: ''
          @ repr_list (unicode_printable w) (env_key_sample env))"
proof -
  have len: "length (env_key_sample env) \<le> 10"
    by (simp add: env_key_sample_def)
  have srt: "sorted (env_key_sample env)"
    by (simp add: env_key_sample_def sorted_py_def)
  have dst: "distinct (env_key_sample env)" if "distinct (keys env)"
    using that by (simp add: env_key_sample_def sorted_py_def)
  have lst: "last (split_lines (written demo_notebook w))
        = lit ''Sample env var keys: ''
          @ repr_list (unicode_printable w) (env_key_sample env)"
    if "clock w = Inr t" "python_version w = Inr v" "platform w = Inr p" "environ w = Inr env"
      "stdout_open w" "fst (demo_notebook w) = None"
    by (rule last_line_complete [OF that])
  from len srt dst lst show ?thesis
    by (simp add: strict_sorted_iff)
qed

theorem env_key_sample_bounded_sorted_distinct_witness:
  "distinct (keys zeta_alpha)
   \<and> environ (host zeta_alpha) = Inr zeta_alpha
   \<and> stdout_open (host zeta_alpha)
   \<and> fst (demo_notebook (host zeta_alpha)) = None
   \<and> env_key_sample zeta_alpha = [lit ''ALPHA'', lit ''ZETA'']
   \<and> distinct (env_key_sample zeta_alpha)
   \<and> sorted_wrt (<) (env_key_sample zeta_alpha)
   \<and> last (split_lines (written demo_notebook (host zeta_alpha)))
       = lit ''Sample env var keys: ['ALPHA', 'ZETA']''"
proof -
  note r = host_reads [of zeta_alpha] host_stdout(2) [of zeta_alpha]
    host_completes [of zeta_alpha]
  note t = env_key_sample_bounded_sorted_distinct
    [of zeta_alpha "host zeta_alpha" noon "lit ''3.11.8''" "lit ''Linux-5.15-x86_64''"]
  have d: "distinct (keys zeta_alpha)"
    by (simp add: keys_zeta_alpha lit_def)
  have s: "distinct (env_key_sample zeta_alpha) \<and> sorted_wrt (<) (env_key_sample zeta_alpha)"
    using t d by blast
  have "last (split_lines (written demo_notebook (host zeta_alpha)))
        = lit ''Sample env var keys: ''
          @ repr_list (unicode_printable (host zeta_alpha)) (env_key_sample zeta_alpha)"
    using t r by blast
  then have l: "last (split_lines (written demo_notebook (host zeta_alpha)))
       = lit ''Sample env var keys: ['ALPHA', 'ZETA']''"
    by (simp add: sample_zeta_alpha repr_alpha_zeta lit_append)
  from d r sample_zeta_alpha s l show ?thesis by blast
qed

text \<open>
  C3: an environment of more than ten names (fifteen, say) gives a sample of exactly
  ten entries, and they are the ten smallest names of the whole environment: all of them
  are names of the environment, and every name left out is greater than every name kept.
\<close>

theorem env_key_sample_ten_smallest:
  assumes "distinct (keys env)" and "10 < length (keys env)"
  shows "length (env_key_sample env) = 10
         \<and> card (set (env_key_sample env)) = 10
         \<and> set (env_key_sample env) \<subseteq> set (keys env)
         \<and> (\<forall>x \<in> set (env_key_sample env).
              \<forall>y \<in> set (keys env) - set (env_key_sample env). x < y)
         \<and> sorted (env_key_sample env)"
proof -
  let ?s = "sort (keys env)"
  have sample: "env_key_sample env = take 10 ?s"
    by (simp add: env_key_sample_def sorted_py_def)
  have len: "length (env_key_sample env) = 10"
    using assms(2) by (simp add: sample)
  have dst: "distinct ?s"
    using assms(1) by simp
  have card: "card (set (env_key_sample env)) = 10"
    using dst len by (simp add: sample distinct_card)
  have sub: "set (env_key_sample env) \<subseteq> set (keys env)"
    using set_take_subset [of 10 ?s] by (simp add: sample)
  have rest: "set (keys env) - set (take 10 ?s) \<subseteq> set (drop 10 ?s)"
  proof -
    have "set (take 10 ?s) \<union> set (drop 10 ?s) = set (keys env)"
      using set_append [of "take 10 ?s" "drop 10 ?s"] by simp
    then show ?thesis by blast
  qed
  have small: "x < y"
    if "x \<in> set (env_key_sample env)" "y \<in> set (keys env) - set (env_key_sample env)"
    for x y
  proof -
    have x: "x \<in> set (take 10 ?s)" using that(1) by (simp add: sample)
    have y: "y \<in> set (drop 10 ?s)" using that(2) rest by (auto simp: sample)
    have "x \<le> y"
      using sorted_take_drop_le [OF _ x y] by simp
    moreover have "x \<noteq> y"
      using that x by (auto simp: sample)
    ultimately show ?thesis by simp
  qed
  have srt: "sorted (env_key_sample env)"
    by (simp add: sample)
  from len card sub small srt show ?thesis by blast
qed

theorem env_key_sample_ten_smallest_witness:
  "distinct (keys fifteen_vars) \<and> length (keys fifteen_vars) = 15
   \<and> env_key_sample fifteen_vars
       = map (\<lambda>c. [86, c]) [65, 66, 67, 68, 69, 70, 71, 72, 73, 74]
   \<and> card (set (env_key_sample fifteen_vars)) = 10
   \<and> length (env_key_sample fifteen_vars) = 10"
proof -
  have k: "keys fifteen_vars
           = map (\<lambda>c. [86, c]) [79, 78, 77, 76, 75, 74, 73, 72, 71, 70, 69, 68, 67, 66, 65]"
    by (simp add: keys_def fifteen_vars_def)
  have d: "distinct (keys fifteen_vars)"
    by (simp add: k)
  have l: "10 < length (keys fifteen_vars)"
    by (simp add: k)
  have s: "env_key_sample fifteen_vars
           = map (\<lambda>c. [86, c]) [65, 66, 67, 68, 69, 70, 71, 72, 73, 74]"
    by (simp add: env_key_sample_def sorted_py_def k)
  from env_key_sample_ten_smallest [OF d l] d s show ?thesis
    by (simp add: k)
qed

text \<open>
  C4, as the specification writes the line: with the names \<open>ZETA\<close> and \<open>ALPHA\<close> the
  last line is not the list with double-quoted names; \<open>repr\<close> quotes a string with
  single quotes.
\<close>

theorem zeta_alpha_double_quoted_counterexample:
  \<open>keys zeta_alpha = [lit ''ZETA'', lit ''ALPHA'']
   \<and> environ (host zeta_alpha) = Inr zeta_alpha
   \<and> fst (demo_notebook (host zeta_alpha)) = None
   \<and> last (split_lines (written demo_notebook (host zeta_alpha)))
       \<noteq> lit ''Sample env var keys: ["ALPHA", "ZETA"]''
   \<and> last (split_lines (written demo_notebook (host zeta_alpha)))
       = lit ''Sample env var keys: ['ALPHA', 'ZETA']''\<close>
proof -
  have "last (split_lines (written demo_notebook (host zeta_alpha)))
        = lit ''Sample env var keys: ''
          @ repr_list (unicode_printable (host zeta_alpha)) (env_key_sample zeta_alpha)"
    by (rule last_line_complete [OF host_reads host_stdout(2) host_completes])
  then have l: "last (split_lines (written demo_notebook (host zeta_alpha)))
       = lit ''Sample env var keys: ['ALPHA', 'ZETA']''"
    by (simp add: sample_zeta_alpha repr_alpha_zeta lit_append)
  have n: \<open>lit ''Sample env var keys: ['ALPHA', 'ZETA']''
           \<noteq> lit ''Sample env var keys: ["ALPHA", "ZETA"]''\<close>
    by (simp add: lit_def)
  from l n keys_zeta_alpha host_reads(4) [of zeta_alpha] host_completes [of zeta_alpha]
  show ?thesis by simp
qed

text \<open>
  C4, amended: for an environment whose names are exactly \<open>ZETA\<close> and \<open>ALPHA\<close>, the
  sample is \<open>ALPHA\<close> before \<open>ZETA\<close>, and the last line of the output of a run that gets
  there is \<open>Sample env var keys: ['ALPHA', 'ZETA']\<close>, the list in Python's \<open>repr\<close>.
\<close>

theorem zeta_alpha_sample_line:
  assumes "clock w = Inr t" "python_version w = Inr v" "platform w = Inr p"
    "environ w = Inr env"
    and "distinct (keys env)" "set (keys env) = {lit ''ZETA'', lit ''ALPHA''}"
    and "stdout_open w" "fst (demo_notebook w) = None"
  shows "env_key_sample env = [lit ''ALPHA'', lit ''ZETA'']
    \<and> last (split_lines (written demo_notebook w))
        = lit ''Sample env var keys: ['ALPHA', 'ZETA']''"
proof -
  have "set (keys env) = {lit ''ALPHA'', lit ''ZETA''}"
    using assms(6) by auto
  moreover have "lit ''ALPHA'' < lit ''ZETA''"
    by (simp add: lit_def)
  ultimately have "sort (keys env) = [lit ''ALPHA'', lit ''ZETA'']"
    using assms(5) by (intro sort_two_names)
  then have s: "env_key_sample env = [lit ''ALPHA'', lit ''ZETA'']"
    by (simp add: env_key_sample_def sorted_py_def)
  have "last (split_lines (written demo_notebook w))
        = lit ''Sample env var keys: '' @ repr_list (unicode_printable w) (env_key_sample env)"
    by (rule last_line_complete [OF assms(1-4,7,8)])
  then have "last (split_lines (written demo_notebook w))
        = lit ''Sample env var keys: ['ALPHA', 'ZETA']''"
    by (simp add: s repr_alpha_zeta lit_append)
  with s show ?thesis by simp
qed

theorem zeta_alpha_sample_line_witness:
  "environ (host zeta_alpha) = Inr zeta_alpha
   \<and> distinct (keys zeta_alpha)
   \<and> set (keys zeta_alpha) = {lit ''ZETA'', lit ''ALPHA''}
   \<and> stdout_open (host zeta_alpha)
   \<and> fst (demo_notebook (host zeta_alpha)) = None
   \<and> last (split_lines (written demo_notebook (host zeta_alpha)))
        = lit ''Sample env var keys: ['ALPHA', 'ZETA']''"
proof -
  have d: "distinct (keys zeta_alpha)"
    by (simp add: keys_zeta_alpha lit_def)
  have s: "set (keys zeta_alpha) = {lit ''ZETA'', lit ''ALPHA''}"
    by (simp add: keys_zeta_alpha)
  from zeta_alpha_sample_line [OF host_reads d s host_stdout(2) host_completes] d s
    host_reads(4) [of zeta_alpha] host_stdout(2) [of zeta_alpha] host_completes [of zeta_alpha]
  show ?thesis by blast
qed

text \<open>
  C5: for an environment without variables the last line of the output of a run that gets
  there is \<open>Sample env var keys: []\<close>.
\<close>

theorem empty_environment_sample_line:
  assumes "clock w = Inr t" "python_version w = Inr v" "platform w = Inr p"
    "environ w = Inr []"
    and "stdout_open w" "fst (demo_notebook w) = None"
  shows "env_key_sample [] = []
    \<and> last (split_lines (written demo_notebook w)) = lit ''Sample env var keys: []''"
proof -
  have s: "env_key_sample [] = []"
    by (simp add: env_key_sample_def sorted_py_def keys_def)
  have "last (split_lines (written demo_notebook w))
        = lit ''Sample env var keys: '' @ repr_list (unicode_printable w) (env_key_sample [])"
    by (rule last_line_complete [OF assms])
  then show ?thesis
    by (simp add: s repr_empty lit_append)
qed

theorem empty_environment_sample_line_witness:
  "environ (host []) = Inr [] \<and> stdout_open (host [])
   \<and> fst (demo_notebook (host [])) = None
   \<and> last (split_lines (written demo_notebook (host []))) = lit ''Sample env var keys: []''"
  using empty_environment_sample_line [OF host_reads host_stdout(2) host_completes]
    host_reads(4) [of "[]"] host_stdout(2) [of "[]"] host_completes [of "[]"]
  by blast

text \<open>
  C6: when the clock is read and the cell gets past its second \<open>print\<close> (its first four
  statements complete, whatever happens later), the second line of the output is
  \<open>UTC now: \<close> followed by the reading in ISO format; that text is read back by the
  ISO 8601 reader as the same instant with the offset zero, and it ends with the
  designator \<open>+00:00\<close>.
\<close>

theorem utc_timestamp_line:
  assumes "clock w = Inr t" and "valid_datetime t"
    and "stdout_open w" and "fst (exec (take 4 demo_cell) w) = None"
  shows "take 2 (split_lines (written demo_notebook w))
         = [greeting, lit ''UTC now: '' @ isoformat t]
    \<and> iso8601_parse (isoformat t) = Some (t, 0)
    \<and> drop (length (isoformat t) - 6) (isoformat t) = lit ''+00:00''"
  using head_lines [OF assms(1,3,4)] isoformat_roundtrip [OF assms(2)]
    isoformat_ends_with_offset [of t]
  by blast

theorem utc_timestamp_line_witness:
  "clock second_run = Inr later \<and> valid_datetime later
   \<and> stdout_open second_run
   \<and> fst (exec (take 4 demo_cell) second_run) = None
   \<and> take 2 (split_lines (written demo_notebook second_run))
      = [greeting, lit ''UTC now: 2024-03-07T09:05:01.000042+00:00'']
   \<and> iso8601_parse (lit ''2024-03-07T09:05:01.000042+00:00'') = Some (later, 0)"
proof -
  note h = completes_head [OF second_run_completes]
  note t = utc_timestamp_line [OF second_run_reads(1) valid_noon_later(2) second_run_reads(6) h]
  from t have "take 2 (split_lines (written demo_notebook second_run))
      = [greeting, lit ''UTC now: 2024-03-07T09:05:01.000042+00:00'']"
    by (simp add: isoformat_later lit_append)
  moreover from t have "iso8601_parse (lit ''2024-03-07T09:05:01.000042+00:00'') = Some (later, 0)"
    by (simp add: isoformat_later)
  ultimately show ?thesis
    using second_run_reads(1,6) valid_noon_later(2) h by blast
qed

text \<open>
  C7: two runs that see the same interpreter, platform and environment, and any two clock
  readings, and that both get to their end, write the same text around their timestamps;
  as lines, both outputs have five lines, the lines 1, 3, 4 and 5 are equal, and line 2
  is \<open>UTC now: \<close> with the timestamp of the run.
\<close>

theorem runs_differ_only_in_timestamp:
  assumes "clock w1 = Inr t1" "clock w2 = Inr t2"
    and "python_version w1 = Inr v" "python_version w2 = Inr v"
    and "platform w1 = Inr p" "platform w2 = Inr p"
    and "environ w1 = Inr env" "environ w2 = Inr env"
    and "unicode_printable w1 = unicode_printable w2"
    and "stdout_open w1" "stdout_open w2"
    and "fst (demo_notebook w1) = None" "fst (demo_notebook w2) = None"
  shows "(\<exists>pre post. written demo_notebook w1 = pre @ isoformat t1 @ post
                     \<and> written demo_notebook w2 = pre @ isoformat t2 @ post)
    \<and> (single_line v \<and> single_line p \<longrightarrow>
         length (split_lines (written demo_notebook w1)) = 5
         \<and> length (split_lines (written demo_notebook w2)) = 5
         \<and> (\<forall>i \<in> {0, 2, 3, 4}. split_lines (written demo_notebook w1) ! i
                                 = split_lines (written demo_notebook w2) ! i)
         \<and> split_lines (written demo_notebook w1) ! 1 = lit ''UTC now: '' @ isoformat t1
         \<and> split_lines (written demo_notebook w2) ! 1 = lit ''UTC now: '' @ isoformat t2)"
proof -
  define post where "post = newline # (lit ''Python: '' @ v) @ newline # (lit ''Platform: '' @ p)
        @ newline # (lit ''Sample env var keys: ''
                      @ repr_list (unicode_printable w2) (env_key_sample env)) @ [newline]"
  have o1: "written demo_notebook w1
    = (greeting @ newline # lit ''UTC now: '') @ isoformat t1 @ post"
    using written_complete [OF assms(1,3,5,7,10,12)]
    by (simp add: post_def assms(9))
  have o2: "written demo_notebook w2
    = (greeting @ newline # lit ''UTC now: '') @ isoformat t2 @ post"
    using written_complete [OF assms(2,4,6,8,11,13)]
    by (simp add: post_def)
  have a: "\<exists>pre post. written demo_notebook w1 = pre @ isoformat t1 @ post
                     \<and> written demo_notebook w2 = pre @ isoformat t2 @ post"
    using o1 o2 by blast
  have b: "length (split_lines (written demo_notebook w1)) = 5
         \<and> length (split_lines (written demo_notebook w2)) = 5
         \<and> (\<forall>i \<in> {0, 2, 3, 4}. split_lines (written demo_notebook w1) ! i
                                 = split_lines (written demo_notebook w2) ! i)
         \<and> split_lines (written demo_notebook w1) ! 1 = lit ''UTC now: '' @ isoformat t1
         \<and> split_lines (written demo_notebook w2) ! 1 = lit ''UTC now: '' @ isoformat t2"
    if sl: "single_line v" "single_line p"
  proof -
    note l1 = lines_complete [OF assms(1,3,5,7,10,12) sl]
    note l2 = lines_complete [OF assms(2,4,6,8,11,13) sl]
    show ?thesis
      unfolding l1 l2 by (simp add: assms(9))
  qed
  from a b show ?thesis by blast
qed

theorem runs_differ_only_in_timestamp_witness:
  "clock (host zeta_alpha) = Inr noon \<and> clock second_run = Inr later
   \<and> python_version second_run = python_version (host zeta_alpha)
   \<and> platform second_run = platform (host zeta_alpha)
   \<and> environ second_run = environ (host zeta_alpha)
   \<and> stdout_open (host zeta_alpha) \<and> stdout_open second_run
   \<and> fst (demo_notebook (host zeta_alpha)) = None \<and> fst (demo_notebook second_run) = None
   \<and> split_lines (written demo_notebook (host zeta_alpha)) ! 1
       = lit ''UTC now: 2024-02-29T12:00:00+00:00''
   \<and> split_lines (written demo_notebook second_run) ! 1
       = lit ''UTC now: 2024-03-07T09:05:01.000042+00:00''
   \<and> split_lines (written demo_notebook (host zeta_alpha)) ! 4
       = split_lines (written demo_notebook second_run) ! 4
   \<and> length (split_lines (written demo_notebook second_run)) = 5"
proof -
  note t = runs_differ_only_in_timestamp
    [OF host_reads(1) second_run_reads(1) host_reads(2) second_run_reads(2)
        host_reads(3) second_run_reads(3) host_reads(4) second_run_reads(4)
        second_run_reads(5) [symmetric] host_stdout(2) second_run_reads(6)
        host_completes second_run_completes, THEN conjunct2]
  from t single_line_host
  have c: "length (split_lines (written demo_notebook second_run)) = 5
     \<and> (\<forall>i \<in> {0, 2, 3, 4}. split_lines (written demo_notebook (host zeta_alpha)) ! i
                                 = split_lines (written demo_notebook second_run) ! i)
     \<and> split_lines (written demo_notebook (host zeta_alpha)) ! 1
         = lit ''UTC now: '' @ isoformat noon
     \<and> split_lines (written demo_notebook second_run) ! 1 = lit ''UTC now: '' @ isoformat later"
    by blast
  then have "split_lines (written demo_notebook (host zeta_alpha)) ! 4
       = split_lines (written demo_notebook second_run) ! 4"
    by blast
  moreover from c have "split_lines (written demo_notebook (host zeta_alpha)) ! 1
       = lit ''UTC now: 2024-02-29T12:00:00+00:00''"
    by (simp add: isoformat_noon lit_append)
  moreover from c have "split_lines (written demo_notebook second_run) ! 1
       = lit ''UTC now: 2024-03-07T09:05:01.000042+00:00''"
    by (simp add: isoformat_later lit_append)
  ultimately show ?thesis
    using c host_reads [of zeta_alpha] second_run_reads host_stdout(2) [of zeta_alpha]
      host_completes [of zeta_alpha] second_run_completes
    by simp
qed







text \<open>
  C10: the cells of the two notebooks are the same sequence of statements, so from the
  same world they end the same way and write the same text to standard output.
\<close>

theorem notebooks_agree:
  "demo_cell = deployment_cell
   \<and> demo_notebook w = deployment_notebook w
   \<and> stdout (snd (demo_notebook w)) = stdout (snd (deployment_notebook w))
   \<and> written demo_notebook w = written deployment_notebook w"
  by (simp add: demo_notebook_def deployment_notebook_def demo_cell_def deployment_cell_def
      written_def)

theorem notebooks_agree_witness:
  "written deployment_notebook (host zeta_alpha) = written demo_notebook (host zeta_alpha)
   \<and> split_lines (written deployment_notebook (host zeta_alpha))
       = [greeting, lit ''UTC now: 2024-02-29T12:00:00+00:00'', lit ''Python: 3.11.8'',
          lit ''Platform: Linux-5.15-x86_64'', lit ''Sample env var keys: ['ALPHA', 'ZETA']'']"
proof -
  have e: "written deployment_notebook (host zeta_alpha) = written demo_notebook (host zeta_alpha)"
    using notebooks_agree [of "host zeta_alpha"] by simp
  have "split_lines (written demo_notebook (host zeta_alpha))
    = [greeting, lit ''UTC now: '' @ isoformat noon, lit ''Python: '' @ lit ''3.11.8'',
       lit ''Platform: '' @ lit ''Linux-5.15-x86_64'',
       lit ''Sample env var keys: ''
         @ repr_list (unicode_printable (host zeta_alpha)) (env_key_sample zeta_alpha)]"
    by (rule lines_complete [OF host_reads host_stdout(2) host_completes single_line_host])
  then have "split_lines (written demo_notebook (host zeta_alpha))
       = [greeting, lit ''UTC now: 2024-02-29T12:00:00+00:00'', lit ''Python: 3.11.8'',
          lit ''Platform: Linux-5.15-x86_64'', lit ''Sample env var keys: ['ALPHA', 'ZETA']'']"
    by (simp add: isoformat_noon sample_zeta_alpha repr_alpha_zeta lit_append)
  with e show ?thesis by simp
qed

end
